theory Spec2Isabelle
  imports Main "HOL-Library.Word"
begin

section \<open>Data model\<close>

text \<open>
  A Python \<^verbatim>\<open>bytes\<close> value is a list of 8-bit words; reading an element gives an
  unbounded Python integer (\<open>unat\<close>).
\<close>

type_synonym byte = "8 word"

text \<open>The exceptions that the modelled code can raise.\<close>

datatype exn = ValueError | AssertionError | IndexError | OverflowError | USBError | TimeoutError

text \<open>\<^verbatim>\<open>class ConnectionType(Enum)\<close> of \<^verbatim>\<open>rfid/transport.py\<close>.\<close>

datatype ConnectionType = SERIAL | USB | TCP_IP

text \<open>
  The three transport classes wrap an external device (pyserial, pyusb, a socket). The
  device is modelled by what it holds for the reader: \<open>packets\<close> are the bulk packets
  waiting on the USB IN endpoint, one per \<^verbatim>\<open>ep_in.read\<close>; \<open>inbuf\<close> is the input buffer
  of the serial port or socket. The device sends only in answer to what is written to
  it: \<open>script\<close> holds, for each write to come, the frames that the device sends in
  answer. A read that finds nothing is a timeout. \<open>events\<close> records, in order, every
  \<^verbatim>\<open>write_bytes\<close> and every \<^verbatim>\<open>clear_buffer\<close> call that the reader made.
\<close>

datatype event = Wrote "byte list" | Cleared

record Transport =
  connection_type :: ConnectionType
  packets :: "byte list list"
  inbuf :: "byte list"
  script :: "byte list list list"
  events :: "event list"

text \<open>
  \<^verbatim>\<open>UsbTransport.read_bytes\<close>: one bulk packet; pyusb raises \<^verbatim>\<open>USBError\<close> when the
  endpoint times out.
\<close>

definition usb_read_bytes :: "Transport \<Rightarrow> (exn + byte list) \<times> Transport" where
  "usb_read_bytes t =
     (case packets t of
        [] \<Rightarrow> (Inl USBError, t)
      | p # ps \<Rightarrow> (Inr p, t\<lparr>packets := ps\<rparr>))"

text \<open>
  \<^verbatim>\<open>SerialTransport.read_bytes(length)\<close> returns at most \<open>length\<close> bytes, fewer (or
  none) on a timeout. \<^verbatim>\<open>TcpTransport.read_bytes(length)\<close> is \<^verbatim>\<open>socket.recv\<close>, which
  raises \<^verbatim>\<open>TimeoutError\<close> when nothing is there.
\<close>

definition read_bytes :: "Transport \<Rightarrow> nat \<Rightarrow> (exn + byte list) \<times> Transport" where
  "read_bytes t n =
     (if connection_type t = TCP_IP \<and> inbuf t = [] then (Inl TimeoutError, t)
      else (Inr (take n (inbuf t)), t\<lparr>inbuf := drop n (inbuf t)\<rparr>))"

text \<open>The device sends frames: a bulk packet each over USB, a run of bytes otherwise.\<close>

definition deliver :: "Transport \<Rightarrow> byte list list \<Rightarrow> Transport" where
  "deliver t fs =
     (if connection_type t = USB then t\<lparr>packets := packets t @ fs\<rparr>
      else t\<lparr>inbuf := inbuf t @ concat fs\<rparr>)"

text \<open>\<^verbatim>\<open>write_bytes\<close>; the device answers with the next entry of its script.\<close>

definition write_bytes :: "Transport \<Rightarrow> byte list \<Rightarrow> Transport" where
  "write_bytes t buffer =
     (case script t of
        [] \<Rightarrow> t\<lparr>events := events t @ [Wrote buffer]\<rparr>
      | fs # later \<Rightarrow> (deliver t fs)\<lparr>script := later, events := events t @ [Wrote buffer]\<rparr>)"

text \<open>
  \<^verbatim>\<open>clear_buffer\<close> is \<^verbatim>\<open>pass\<close> for USB and TCP; the serial port resets its buffers.
\<close>

definition clear_buffer :: "Transport \<Rightarrow> Transport" where
  "clear_buffer t =
     (case connection_type t of
        SERIAL \<Rightarrow> t\<lparr>inbuf := [], events := events t @ [Cleared]\<rparr>
      | _ \<Rightarrow> t\<lparr>events := events t @ [Cleared]\<rparr>)"

text \<open>
  The modules \<^verbatim>\<open>rfid.command\<close>, \<^verbatim>\<open>rfid.response\<close>, \<^verbatim>\<open>rfid.status\<close> and
  \<^verbatim>\<open>rfid.reader_settings\<close> are imported by \<^verbatim>\<open>rfid/reader.py\<close>. What the reader
  uses of them is a parameter of the model: the constant \<^verbatim>\<open>HEADER\<close>; the members of
  the enumeration \<^verbatim>\<open>CommandRequest\<close>, each identified with its value (two members
  of a Python enumeration are equal exactly when their values are), and the list of all
  values, so that \<^verbatim>\<open>CommandRequest(v)\<close> raises \<^verbatim>\<open>ValueError\<close> outside it;
  \<^verbatim>\<open>Command(request, data).serialize()\<close>; the enumeration \<^verbatim>\<open>InventoryStatus\<close>
  likewise; the constructors of the typed responses, which may raise, the attribute
  \<^verbatim>\<open>status\<close> of a typed response and the value of \<^verbatim>\<open>Status.NO_COUNT_LABEL\<close>.
\<close>

record 'r rfid =
  HEADER :: byte
  CommandRequest_values :: "nat list"
  INVENTORY_ISO_CONTINUE :: nat
  INVENTORY_STOP :: nat
  SET_POWER :: nat
  SELECT_MASK :: nat
  READ_ISO_TAG :: nat
  WRITE_ISO_TAG :: nat
  LOCK_ISO_TAG :: nat
  KILL_ISO_TAG :: nat
  GET_ALL_PARAM :: nat
  serialize :: "nat \<Rightarrow> byte list \<Rightarrow> byte list"
  InventoryStatus_values :: "byte list"
  InventoryStatus_SUCCESS :: byte
  InventoryStatus_NO_COUNT_LABEL :: byte
  Response :: "byte list option \<Rightarrow> exn + 'r"
  ResponseInventory :: "byte list \<Rightarrow> exn + 'r"
  ResponseReadMemory :: "byte list \<Rightarrow> exn + 'r"
  ResponseWriteMemory :: "byte list \<Rightarrow> exn + 'r"
  ResponseLockMemory :: "byte list \<Rightarrow> exn + 'r"
  ResponseKillTag :: "byte list \<Rightarrow> exn + 'r"
  status :: "'r \<Rightarrow> nat"
  Status_NO_COUNT_LABEL :: nat

text \<open>\<^verbatim>\<open>CommandRequest(v)\<close>: \<open>None\<close> stands for the \<^verbatim>\<open>ValueError\<close>.\<close>

definition CommandRequest :: "'r rfid \<Rightarrow> nat \<Rightarrow> nat option" where
  "CommandRequest env v = (if v \<in> set (CommandRequest_values env) then Some v else None)"

text \<open>\<^verbatim>\<open>InventoryStatus(v)\<close>.\<close>

definition InventoryStatus :: "'r rfid \<Rightarrow> byte \<Rightarrow> byte option" where
  "InventoryStatus env v = (if v \<in> set (InventoryStatus_values env) then Some v else None)"

text \<open>\<^verbatim>\<open>int.from_bytes(bs, "big")\<close>.\<close>

definition from_bytes_big :: "byte list \<Rightarrow> nat" where
  "from_bytes_big bs = foldl (\<lambda>acc b. acc * 256 + unat b) 0 bs"

text \<open>\<^verbatim>\<open>n.to_bytes(2, "big")\<close> and \<^verbatim>\<open>n.to_bytes(4, "big")\<close>.\<close>

definition to_bytes2 :: "int \<Rightarrow> exn + byte list" where
  "to_bytes2 n =
     (if n < 0 \<or> 65536 \<le> n then Inl OverflowError
      else Inr [word_of_int (n div 256), word_of_int (n mod 256)])"

definition to_bytes4 :: "int \<Rightarrow> exn + byte list" where
  "to_bytes4 n =
     (if n < 0 \<or> 4294967296 \<le> n then Inl OverflowError
      else Inr [word_of_int (n div 16777216), word_of_int (n div 65536 mod 256),
                word_of_int (n div 256 mod 256), word_of_int (n mod 256)])"

section \<open>The reader: sending and receiving\<close>

record Reader =
  transport :: Transport
  is_inventory :: bool

text \<open>
  \<^verbatim>\<open>Reader.__send_request\<close>. The two Qt signals are observer hooks and are left out.
\<close>

definition send_request :: "'r rfid \<Rightarrow> Transport \<Rightarrow> nat \<Rightarrow> byte list \<Rightarrow> bool \<Rightarrow> Transport" where
  "send_request env t command data clear =
     (let serialized = serialize env command data;
          t1 = (if clear then clear_buffer t else t)
      in write_bytes t1 serialized)"

text \<open>
  The loop \<^verbatim>\<open>while len(raw_resp) < all_len: raw_resp += self.transport.read_bytes()\<close>
  of the USB branch of \<^verbatim>\<open>__receive\<close>.
\<close>

function usb_read_more :: "nat \<Rightarrow> byte list \<Rightarrow> Transport \<Rightarrow> (exn + byte list) \<times> Transport" where
  "usb_read_more all_len raw_resp t =
     (if length raw_resp < all_len then
        (case usb_read_bytes t of
           (Inl e, t') \<Rightarrow> (Inl e, t')
         | (Inr p, t') \<Rightarrow> usb_read_more all_len (raw_resp @ p) t')
      else (Inr raw_resp, t))"
  by pat_completeness auto
termination
  by (relation "measure (\<lambda>(all_len, raw_resp, t). length (packets t))")
     (auto simp: usb_read_bytes_def split: list.splits)

text \<open>
  The inner function \<^verbatim>\<open>__receive\<close> of \<^verbatim>\<open>Reader.__receive_response\<close>. The result
  \<open>Inr None\<close> is the Python value \<^verbatim>\<open>None\<close>.
\<close>

definition receive :: "'r rfid \<Rightarrow> bool \<Rightarrow> bool \<Rightarrow> Transport \<Rightarrow> (exn + byte list option) \<times> Transport" where
  "receive env verify_header loop_usb t =
     (if connection_type t = USB then
        (case usb_read_bytes t of
           (Inl e, t1) \<Rightarrow> (Inl e, t1)
         | (Inr raw_resp, t1) \<Rightarrow>
             if loop_usb then
               (if length raw_resp \<le> 4 then (Inl IndexError, t1)
                else
                  (let all_len = 4 + unat (raw_resp ! 4) + 2
                   in case usb_read_more all_len raw_resp t1 of
                        (Inl e, t2) \<Rightarrow> (Inl e, t2)
                      | (Inr raw, t2) \<Rightarrow> (Inr (Some raw), t2)))
             else (Inr (Some raw_resp), t1))
      else
        (case read_bytes t 5 of
           (Inl e, t1) \<Rightarrow> (Inl e, t1)
         | (Inr response_header_section, t1) \<Rightarrow>
             if length response_header_section \<le> 0
                \<or> (\<not> verify_header \<and> response_header_section ! 0 \<noteq> HEADER env)
             then (Inr None, clear_buffer t1)
             else if length response_header_section \<noteq> 5 then (Inl AssertionError, t1)
             else
               (let body_length = unat (last response_header_section)
                in case read_bytes t1 (body_length + 2) of
                     (Inl e, t2) \<Rightarrow> (Inl e, t2)
                   | (Inr response_body_section, t2) \<Rightarrow>
                       (Inr (Some (response_header_section @ response_body_section)), t2))))"

text \<open>
  The loop \<^verbatim>\<open>for i in range(20)\<close> of \<^verbatim>\<open>__receive_response\<close>, with the number of
  attempts that are left and the value of \<^verbatim>\<open>raw_response\<close> so far.
\<close>

fun receive_attempts ::
  "'r rfid \<Rightarrow> nat \<Rightarrow> bool \<Rightarrow> bool \<Rightarrow> nat \<Rightarrow> byte list option \<Rightarrow> Transport
     \<Rightarrow> (exn + byte list option) \<times> Transport" where
  "receive_attempts env command_request verify_header loop_usb 0 raw_response t =
     (Inr raw_response, t)"
| "receive_attempts env command_request verify_header loop_usb (Suc n) raw_response t =
     (case receive env verify_header loop_usb t of
        (Inl e, t1) \<Rightarrow> (Inl e, t1)
      | (Inr None, t1) \<Rightarrow> (Inr None, t1)
      | (Inr (Some raw), t1) \<Rightarrow>
          (let t2 = (if length raw > 0 \<and> raw ! 0 \<noteq> HEADER env then clear_buffer t1 else t1);
               command_response = CommandRequest env (from_bytes_big (take 2 (drop 2 raw)))
           in if command_response = Some command_request then (Inr (Some raw), t2)
              else receive_attempts env command_request verify_header loop_usb n (Some raw) t2))"

definition receive_response ::
  "'r rfid \<Rightarrow> nat \<Rightarrow> bool \<Rightarrow> bool \<Rightarrow> Transport \<Rightarrow> (exn + byte list option) \<times> Transport" where
  "receive_response env command_request verify_header loop_usb t =
     receive_attempts env command_request verify_header loop_usb 20 None t"

section \<open>One-shot operations\<close>

text \<open>\<^verbatim>\<open>Reader.set_power\<close>; \<open>pwr\<close> is its argument \<^verbatim>\<open>power\<close>.\<close>

definition set_power :: "'r rfid \<Rightarrow> int \<Rightarrow> int \<Rightarrow> Reader \<Rightarrow> (exn + 'r) \<times> Reader" where
  "set_power env pwr reserve rd =
     (if \<not> ((0 \<le> pwr \<and> pwr \<le> 33) \<and> (0 \<le> reserve \<and> reserve \<le> 1))
      then (Inl AssertionError, rd)
      else
        (let t1 = send_request env (transport rd) (SET_POWER env)
                    [word_of_int pwr, word_of_int reserve] True
         in case receive_response env (SET_POWER env) True True t1 of
              (Inl e, t2) \<Rightarrow> (Inl e, rd\<lparr>transport := t2\<rparr>)
            | (Inr raw, t2) \<Rightarrow> (Response env raw, rd\<lparr>transport := t2\<rparr>)))"

text \<open>
  The payload that \<^verbatim>\<open>Reader.select_mask\<close> builds from its argument
  \<^verbatim>\<open>mask\<close>, here \<open>msk\<close>. \<^verbatim>\<open>data.extend([length])\<close> raises
  \<^verbatim>\<open>ValueError\<close> when \<open>length\<close> is not a byte.
\<close>

definition select_mask_data :: "byte list \<Rightarrow> int \<Rightarrow> exn + byte list" where
  "select_mask_data msk start_address =
     (case to_bytes2 (start_address * 8) of
        Inl e \<Rightarrow> Inl e
      | Inr start_bytes \<Rightarrow>
          (let len = length msk * 8
           in if 255 < len then Inl ValueError
              else
                (let msk' = (if length msk mod 2 \<noteq> 0 then msk @ [0] else msk)
                 in Inr (start_bytes @ [word_of_nat len] @ msk'))))"

definition select_mask :: "'r rfid \<Rightarrow> byte list \<Rightarrow> int \<Rightarrow> Reader \<Rightarrow> (exn + 'r) \<times> Reader" where
  "select_mask env msk start_address rd =
     (case select_mask_data msk start_address of
        Inl e \<Rightarrow> (Inl e, rd)
      | Inr data \<Rightarrow>
          (let t1 = send_request env (transport rd) (SELECT_MASK env) data True
           in case receive_response env (SELECT_MASK env) True True t1 of
                (Inl e, t2) \<Rightarrow> (Inl e, rd\<lparr>transport := t2\<rparr>)
              | (Inr raw, t2) \<Rightarrow> (Response env raw, rd\<lparr>transport := t2\<rparr>)))"

text \<open>
  Modelled from the spec: the enumeration \<^verbatim>\<open>WorkMode\<close> of \<^verbatim>\<open>rfid.reader_settings\<close>,
  "WorkMode {ANSWER_MODE, ACTIVE_MODE, TRIGGER_MODE}". The reader only compares a work
  mode with \<^verbatim>\<open>WorkMode.ANSWER_MODE\<close>.
\<close>

datatype WorkMode = ANSWER_MODE | ACTIVE_MODE | TRIGGER_MODE


section \<open>Streaming operations\<close>

text \<open>
  The streaming operations are Python generators. A generator is modelled by its
  suspension point and the reader it works on: \<open>Created\<close> before the first
  \<^verbatim>\<open>next\<close> (no line of the body has run), \<open>YieldedNone\<close> at a \<^verbatim>\<open>yield\<close> that is
  followed by \<^verbatim>\<open>continue\<close>, \<open>YieldedResponse b\<close> at the \<^verbatim>\<open>yield\<close> of a typed response,
  where \<open>b\<close> tells whether the test for \<^verbatim>\<open>NO_COUNT_LABEL\<close> that follows it holds, and
  \<open>Finished\<close>. Between two advances the caller may change the reader, as
  \<^verbatim>\<open>stop_inventory\<close> does.

  An advance runs the body up to the next \<^verbatim>\<open>yield\<close>. The \<^verbatim>\<open>while\<close> loop may go
  round without yielding, so it takes fuel, one unit for each round; \<open>OutOfFuel\<close>
  leaves the generator at the head of the loop.
\<close>

datatype pc = Created | YieldedNone | YieldedResponse bool | Finished

datatype 'r step = Yield "'r option" | StopIteration | Raised exn | OutOfFuel

type_synonym 'r suspended = "'r step \<times> pc \<times> Reader"

text \<open>What one round of a loop does with what it received.\<close>

datatype 'r outcome = Yielded "'r option" bool | Next | Raise exn

text \<open>
  The body of the loop of \<^verbatim>\<open>Reader.start_inventory\<close> after the \<^verbatim>\<open>try\<close> statement.
\<close>

definition inventory_round :: "'r rfid \<Rightarrow> ConnectionType \<Rightarrow> byte list option \<Rightarrow> 'r outcome" where
  "inventory_round env ct resp =
     (case resp of
        None \<Rightarrow> Yielded None False
      | Some response \<Rightarrow>
          if length response \<le> 0 then Yielded None False
          else if response ! 0 \<noteq> HEADER env then Next
          else if length response \<le> 4 then Raise IndexError
          else
            (let header_section = take 5 response;
                 len = unat (response ! 4)
             in case CommandRequest env (from_bytes_big (take 2 (drop 2 header_section))) of
                  None \<Rightarrow> Raise ValueError
                | Some command_request \<Rightarrow>
                    if command_request = INVENTORY_STOP env then Next
                    else
                      (let body_n_checksum_section = take (len + 2) (drop 5 response)
                       in if body_n_checksum_section = [] then Raise IndexError
                          else
                            (case InventoryStatus env (body_n_checksum_section ! 0) of
                               None \<Rightarrow> Raise ValueError
                             | Some st \<Rightarrow>
                                 (let body_section =
                                        drop 1 (take (length body_n_checksum_section - 2)
                                                  body_n_checksum_section)
                                  in if int (length body_n_checksum_section) - 2 \<noteq> int len
                                     then Next
                                     else if ct = USB \<and> st = InventoryStatus_SUCCESS env
                                             \<and> length body_section \<le> 4
                                     then Raise IndexError
                                     else if ct = USB \<and> st = InventoryStatus_SUCCESS env
                                             \<and> length (take (unat (body_section ! 4)) body_section)
                                                 \<noteq> unat (body_section ! 4)
                                     then Next
                                     else
                                       (case ResponseInventory env
                                               (header_section @ body_n_checksum_section) of
                                          Inl e \<Rightarrow> Raise e
                                        | Inr response_inventory \<Rightarrow>
                                            Yielded (Some response_inventory)
                                              (st = InventoryStatus_NO_COUNT_LABEL env)))))))"

text \<open>The loop \<^verbatim>\<open>while self.is_inventory\<close> of \<^verbatim>\<open>Reader.start_inventory\<close>.\<close>

fun inventory_loop :: "'r rfid \<Rightarrow> nat \<Rightarrow> Reader \<Rightarrow> 'r suspended" where
  "inventory_loop env 0 rd = (OutOfFuel, YieldedNone, rd)"
| "inventory_loop env (Suc fuel) rd =
     (if \<not> is_inventory rd then (StopIteration, Finished, rd\<lparr>is_inventory := False\<rparr>)
      else
        (case receive_response env (INVENTORY_ISO_CONTINUE env) False False (transport rd) of
           (Inl e, t) \<Rightarrow>
             if e = USBError \<or> e = TimeoutError
             then (Yield None, YieldedNone, rd\<lparr>transport := t\<rparr>)
             else (Raised e, Finished, rd\<lparr>transport := t\<rparr>)
         | (Inr response, t) \<Rightarrow>
             (case inventory_round env (connection_type t) response of
                Raise e \<Rightarrow> (Raised e, Finished, rd\<lparr>transport := t\<rparr>)
              | Next \<Rightarrow> inventory_loop env fuel (rd\<lparr>transport := t\<rparr>)
              | Yielded None b \<Rightarrow> (Yield None, YieldedNone, rd\<lparr>transport := t\<rparr>)
              | Yielded (Some r) b \<Rightarrow>
                  (Yield (Some r), YieldedResponse b, rd\<lparr>transport := t\<rparr>))))"

text \<open>
  The loops of \<^verbatim>\<open>read_memory\<close>, \<^verbatim>\<open>write_memory\<close>, \<^verbatim>\<open>lock_memory\<close> and
  \<^verbatim>\<open>kill_tag\<close> are the same text up to three things, the parameters here: the class
  of the typed response, the request, and what follows \<^verbatim>\<open>if raw_response is None\<close>:
  \<^verbatim>\<open>yield raw_response\<close> and \<^verbatim>\<open>continue\<close> in \<^verbatim>\<open>read_memory\<close>, only \<^verbatim>\<open>continue\<close> in
  the other three. None of them has a \<^verbatim>\<open>try\<close> statement.
\<close>

fun response_loop ::
  "'r rfid \<Rightarrow> (byte list \<Rightarrow> exn + 'r) \<Rightarrow> nat \<Rightarrow> bool \<Rightarrow> nat \<Rightarrow> Reader \<Rightarrow> 'r suspended" where
  "response_loop env typed cmd_request yield_none 0 rd = (OutOfFuel, YieldedNone, rd)"
| "response_loop env typed cmd_request yield_none (Suc fuel) rd =
     (if \<not> is_inventory rd then (StopIteration, Finished, rd\<lparr>is_inventory := False\<rparr>)
      else
        (case receive_response env cmd_request True True (transport rd) of
           (Inl e, t) \<Rightarrow> (Raised e, Finished, rd\<lparr>transport := t\<rparr>)
         | (Inr None, t) \<Rightarrow>
             if yield_none then (Yield None, YieldedNone, rd\<lparr>transport := t\<rparr>)
             else response_loop env typed cmd_request yield_none fuel (rd\<lparr>transport := t\<rparr>)
         | (Inr (Some raw_response), t) \<Rightarrow>
             (case typed raw_response of
                Inl e \<Rightarrow> (Raised e, Finished, rd\<lparr>transport := t\<rparr>)
              | Inr response \<Rightarrow>
                  (Yield (Some response),
                   YieldedResponse (status env response = Status_NO_COUNT_LABEL env),
                   rd\<lparr>transport := t\<rparr>))))"

text \<open>
  Resuming a generator that is suspended at a \<^verbatim>\<open>yield\<close>: after the yield of a typed
  response comes the test that leaves the loop; leaving the loop clears
  \<^verbatim>\<open>is_inventory\<close>.
\<close>

definition resume :: "(Reader \<Rightarrow> 'r suspended) \<Rightarrow> pc \<Rightarrow> Reader \<Rightarrow> 'r suspended" where
  "resume loop p rd =
     (case p of
        Created \<Rightarrow> loop rd
      | YieldedNone \<Rightarrow> loop rd
      | YieldedResponse b \<Rightarrow>
          if b then (StopIteration, Finished, rd\<lparr>is_inventory := False\<rparr>) else loop rd
      | Finished \<Rightarrow> (StopIteration, Finished, rd))"

text \<open>
  \<^verbatim>\<open>AnswerModeInventoryParameter\<close> of \<^verbatim>\<open>rfid.reader_settings\<close>, as far as the reader
  reads it: the value of the member of \<^verbatim>\<open>StopAfter\<close> and the integer \<^verbatim>\<open>value\<close>.
\<close>

record AnswerModeInventoryParameter =
  stop_after :: byte
  amount :: int

text \<open>\<^verbatim>\<open>Reader.start_inventory\<close>: one advance of its generator.\<close>

definition start_inventory ::
  "'r rfid \<Rightarrow> nat \<Rightarrow> WorkMode \<Rightarrow> AnswerModeInventoryParameter option \<Rightarrow> pc \<times> Reader
     \<Rightarrow> 'r suspended" where
  "start_inventory env fuel work_mode answer_mode_inventory_parameter s =
     (case s of
        (Created, rd) \<Rightarrow>
          (let rd1 = rd\<lparr>is_inventory := True\<rparr>
           in if work_mode = ANSWER_MODE then
                (case answer_mode_inventory_parameter of
                   None \<Rightarrow> (Raised ValueError, Finished, rd1)
                 | Some param \<Rightarrow>
                     (case to_bytes4 (amount param) of
                        Inl e \<Rightarrow> (Raised e, Finished, rd1)
                      | Inr bs \<Rightarrow>
                          inventory_loop env fuel
                            (rd1\<lparr>transport :=
                                   send_request env (transport rd1) (INVENTORY_ISO_CONTINUE env)
                                     (stop_after param # bs) True\<rparr>)))
              else inventory_loop env fuel rd1)
      | (p, rd) \<Rightarrow> resume (inventory_loop env fuel) p rd)"

text \<open>
  \<^verbatim>\<open>Reader.read_memory\<close>; \<open>memory_bank\<close> is the value of the member of
  \<^verbatim>\<open>MemoryBank\<close>.
\<close>

definition read_memory ::
  "'r rfid \<Rightarrow> nat \<Rightarrow> byte \<Rightarrow> int \<Rightarrow> int \<Rightarrow> byte list \<Rightarrow> pc \<times> Reader \<Rightarrow> 'r suspended" where
  "read_memory env fuel memory_bank start_address len access_password s =
     (case s of
        (Created, rd) \<Rightarrow>
          if \<not> ((0 \<le> start_address \<and> start_address \<le> 0xFFFF) \<and> (0 \<le> len \<and> len \<le> 0xFF))
          then (Raised AssertionError, Finished, rd)
          else
            (case to_bytes2 start_address of
               Inl e \<Rightarrow> (Raised e, Finished, rd\<lparr>is_inventory := True\<rparr>)
             | Inr sa \<Rightarrow>
                 (let data = [0] @ access_password @ [memory_bank] @ sa @ [word_of_int len]
                  in response_loop env (ResponseReadMemory env) (READ_ISO_TAG env) True fuel
                       (rd\<lparr>is_inventory := True,
                           transport := send_request env (transport rd) (READ_ISO_TAG env)
                                          data True\<rparr>)))
      | (p, rd) \<Rightarrow>
          resume (response_loop env (ResponseReadMemory env) (READ_ISO_TAG env) True fuel) p rd)"

text \<open>\<^verbatim>\<open>Reader.write_memory\<close>.\<close>

definition write_memory ::
  "'r rfid \<Rightarrow> nat \<Rightarrow> byte \<Rightarrow> byte list \<Rightarrow> int \<Rightarrow> int \<Rightarrow> byte list \<Rightarrow> pc \<times> Reader
     \<Rightarrow> 'r suspended" where
  "write_memory env fuel memory_bank data start_address len0 access_password s =
     (case s of
        (Created, rd) \<Rightarrow>
          if \<not> length data > 0 then (Raised AssertionError, Finished, rd)
          else
            (let len = (if len0 = 0 then int (length data) else len0)
             in if \<not> ((0 \<le> start_address \<and> start_address \<le> 0xFFFF) \<and> (0 < len \<and> len \<le> 0xFF))
                then (Raised AssertionError, Finished, rd)
                else
                  (case to_bytes2 start_address of
                     Inl e \<Rightarrow> (Raised e, Finished, rd\<lparr>is_inventory := True\<rparr>)
                   | Inr sa \<Rightarrow>
                       (let cmd_data = [0] @ access_password @ [memory_bank] @ sa
                                         @ [word_of_int len] @ data
                        in response_loop env (ResponseWriteMemory env) (WRITE_ISO_TAG env) False
                             fuel
                             (rd\<lparr>is_inventory := True,
                                 transport := send_request env (transport rd) (WRITE_ISO_TAG env)
                                                cmd_data True\<rparr>))))
      | (p, rd) \<Rightarrow>
          resume (response_loop env (ResponseWriteMemory env) (WRITE_ISO_TAG env) False fuel)
            p rd)"

text \<open>\<^verbatim>\<open>Reader.lock_memory\<close>.\<close>

definition lock_memory ::
  "'r rfid \<Rightarrow> nat \<Rightarrow> byte \<Rightarrow> byte \<Rightarrow> byte list \<Rightarrow> pc \<times> Reader \<Rightarrow> 'r suspended" where
  "lock_memory env fuel lock_memory_bank lock_action access_password s =
     (case s of
        (Created, rd) \<Rightarrow>
          (let cmd_data = access_password @ [lock_memory_bank] @ [lock_action]
           in response_loop env (ResponseLockMemory env) (LOCK_ISO_TAG env) False fuel
                (rd\<lparr>is_inventory := True,
                    transport := send_request env (transport rd) (LOCK_ISO_TAG env)
                                   cmd_data True\<rparr>))
      | (p, rd) \<Rightarrow>
          resume (response_loop env (ResponseLockMemory env) (LOCK_ISO_TAG env) False fuel)
            p rd)"

text \<open>\<^verbatim>\<open>Reader.kill_tag\<close>.\<close>

definition kill_tag :: "'r rfid \<Rightarrow> nat \<Rightarrow> byte list \<Rightarrow> pc \<times> Reader \<Rightarrow> 'r suspended" where
  "kill_tag env fuel kill_password s =
     (case s of
        (Created, rd) \<Rightarrow>
          response_loop env (ResponseKillTag env) (KILL_ISO_TAG env) False fuel
            (rd\<lparr>is_inventory := True,
                transport := send_request env (transport rd) (KILL_ISO_TAG env)
                               kill_password True\<rparr>)
      | (p, rd) \<Rightarrow>
          resume (response_loop env (ResponseKillTag env) (KILL_ISO_TAG env) False fuel) p rd)"

text \<open>
  A streaming call with its arguments, and one advance of the generator that the call
  returned.
\<close>

datatype operation =
    StartInventory WorkMode "AnswerModeInventoryParameter option"
  | ReadMemory byte int int "byte list"
  | WriteMemory byte "byte list" int int "byte list"
  | LockMemory byte byte "byte list"
  | KillTag "byte list"

fun advance :: "'r rfid \<Rightarrow> nat \<Rightarrow> operation \<Rightarrow> pc \<times> Reader \<Rightarrow> 'r suspended" where
  "advance env fuel (StartInventory work_mode param) s = start_inventory env fuel work_mode param s"
| "advance env fuel (ReadMemory memory_bank start_address len access_password) s =
     read_memory env fuel memory_bank start_address len access_password s"
| "advance env fuel (WriteMemory memory_bank data start_address len access_password) s =
     write_memory env fuel memory_bank data start_address len access_password s"
| "advance env fuel (LockMemory lock_memory_bank lock_action access_password) s =
     lock_memory env fuel lock_memory_bank lock_action access_password s"
| "advance env fuel (KillTag kill_password) s = kill_tag env fuel kill_password s"

text \<open>
  The caller's \<^verbatim>\<open>for res in generator\<close>: the items of at most \<open>n\<close> advances, how the
  last advance ended, and the state then.
\<close>

fun consume ::
  "(pc \<times> Reader \<Rightarrow> 'r suspended) \<Rightarrow> nat \<Rightarrow> pc \<times> Reader \<Rightarrow> 'r option list \<times> 'r suspended" where
  "consume nxt 0 s = ([], OutOfFuel, s)"
| "consume nxt (Suc n) s =
     (case nxt s of
        (Yield x, s') \<Rightarrow> (case consume nxt n s' of (xs, r) \<Rightarrow> (x # xs, r))
      | (r, s') \<Rightarrow> ([], r, s'))"

section \<open>Frames on the wire\<close>

text \<open>
  A frame is \<^verbatim>\<open>HEADER(1) | ADDRESS(1) | OPCODE(2) | LENGTH(1) | PAYLOAD | CHECKSUM(2)\<close>;
  its total length is \<open>5 + LENGTH + 2\<close>. The reader never looks at the checksum.
\<close>

definition complete_frame :: "'r rfid \<Rightarrow> byte list \<Rightarrow> bool" where
  "complete_frame env f \<longleftrightarrow>
     5 \<le> length f \<and> f ! 0 = HEADER env \<and> length f = 5 + unat (f ! 4) + 2"

definition opcode :: "byte list \<Rightarrow> nat" where
  "opcode f = from_bytes_big (take 2 (drop 2 f))"

text \<open>
  A device that holds the frames \<open>fs\<close> for the reader: one frame in each bulk packet
  of a USB endpoint, one after the other in the buffer of a serial port or socket.
\<close>

definition feed :: "Transport \<Rightarrow> byte list list \<Rightarrow> Transport" where
  "feed t fs = (if connection_type t = USB then t\<lparr>packets := fs\<rparr> else t\<lparr>inbuf := concat fs\<rparr>)"

text \<open>The request and the typed response class of a streaming operation.\<close>

fun request_of :: "'r rfid \<Rightarrow> operation \<Rightarrow> nat" where
  "request_of env (StartInventory work_mode param) = INVENTORY_ISO_CONTINUE env"
| "request_of env (ReadMemory memory_bank start_address len access_password) = READ_ISO_TAG env"
| "request_of env (WriteMemory memory_bank data start_address len access_password) =
     WRITE_ISO_TAG env"
| "request_of env (LockMemory lock_memory_bank lock_action access_password) = LOCK_ISO_TAG env"
| "request_of env (KillTag kill_password) = KILL_ISO_TAG env"

fun typed_of :: "'r rfid \<Rightarrow> operation \<Rightarrow> byte list \<Rightarrow> exn + 'r" where
  "typed_of env (StartInventory work_mode param) = ResponseInventory env"
| "typed_of env (ReadMemory memory_bank start_address len access_password) =
     ResponseReadMemory env"
| "typed_of env (WriteMemory memory_bank data start_address len access_password) =
     ResponseWriteMemory env"
| "typed_of env (LockMemory lock_memory_bank lock_action access_password) =
     ResponseLockMemory env"
| "typed_of env (KillTag kill_password) = ResponseKillTag env"

fun is_start_inventory :: "operation \<Rightarrow> bool" where
  "is_start_inventory (StartInventory work_mode param) = True"
| "is_start_inventory _ = False"

text \<open>
  The frame \<open>f\<close> answers the operation \<open>op\<close> with the typed response \<open>r\<close>: it is
  complete, carries the request of the operation, and its class constructs \<open>r\<close> from
  it. An inventory frame moreover has a status byte (index 5) of \<^verbatim>\<open>InventoryStatus\<close>
  and, over USB with status \<^verbatim>\<open>SUCCESS\<close>, a body that holds the tag length (index 10)
  and as many bytes as it says.
\<close>

definition answers :: "'r rfid \<Rightarrow> ConnectionType \<Rightarrow> operation \<Rightarrow> byte list \<Rightarrow> 'r \<Rightarrow> bool" where
  "answers env ct op f r \<longleftrightarrow>
     complete_frame env f
     \<and> CommandRequest env (opcode f) = Some (request_of env op)
     \<and> typed_of env op f = Inr r
     \<and> (\<not> is_start_inventory op
        \<or> (f ! 5 \<in> set (InventoryStatus_values env)
           \<and> (ct \<noteq> USB \<or> f ! 5 \<noteq> InventoryStatus_SUCCESS env
              \<or> (6 \<le> unat (f ! 4) \<and> unat (f ! 10) < unat (f ! 4)))))"

text \<open>
  The status that ends the stream: \<^verbatim>\<open>start_inventory\<close> reads it from the frame,
  the other operations from the typed response.
\<close>

definition terminator :: "'r rfid \<Rightarrow> operation \<Rightarrow> byte list \<Rightarrow> 'r \<Rightarrow> bool" where
  "terminator env op f r \<longleftrightarrow>
     (if is_start_inventory op then f ! 5 = InventoryStatus_NO_COUNT_LABEL env
      else status env r = Status_NO_COUNT_LABEL env)"

text \<open>
  The data of the command that the first advance of a streaming call sends, as the top
  of each generator body builds it: \<open>Inl\<close> when the arguments are refused before
  anything is sent, \<open>Inr None\<close> when no command is sent (\<^verbatim>\<open>start_inventory\<close> outside
  \<^verbatim>\<open>ANSWER_MODE\<close>).
\<close>

fun payload :: "operation \<Rightarrow> exn + byte list option" where
  "payload (StartInventory work_mode param) =
     (if work_mode = ANSWER_MODE then
        (case param of
           None \<Rightarrow> Inl ValueError
         | Some p \<Rightarrow>
             (case to_bytes4 (amount p) of
                Inl e \<Rightarrow> Inl e
              | Inr bs \<Rightarrow> Inr (Some (stop_after p # bs))))
      else Inr None)"
| "payload (ReadMemory memory_bank start_address len access_password) =
     (if \<not> ((0 \<le> start_address \<and> start_address \<le> 0xFFFF) \<and> (0 \<le> len \<and> len \<le> 0xFF))
      then Inl AssertionError
      else
        (case to_bytes2 start_address of
           Inl e \<Rightarrow> Inl e
         | Inr sa \<Rightarrow> Inr (Some ([0] @ access_password @ [memory_bank] @ sa @ [word_of_int len]))))"
| "payload (WriteMemory memory_bank data start_address len0 access_password) =
     (if \<not> length data > 0 then Inl AssertionError
      else
        (let len = (if len0 = 0 then int (length data) else len0)
         in if \<not> ((0 \<le> start_address \<and> start_address \<le> 0xFFFF) \<and> (0 < len \<and> len \<le> 0xFF))
            then Inl AssertionError
            else
              (case to_bytes2 start_address of
                 Inl e \<Rightarrow> Inl e
               | Inr sa \<Rightarrow>
                   Inr (Some ([0] @ access_password @ [memory_bank] @ sa
                              @ [word_of_int len] @ data)))))"
| "payload (LockMemory lock_memory_bank lock_action access_password) =
     Inr (Some (access_password @ [lock_memory_bank] @ [lock_action]))"
| "payload (KillTag kill_password) = Inr (Some kill_password)"

text \<open>
  The reader with which an advance enters the loop: at the first advance the reader
  after \<^verbatim>\<open>is_inventory\<close> was set and the command was sent, at a later advance the
  reader as the caller left it. There is none when the advance does not enter the loop
  (arguments refused, the \<^verbatim>\<open>break\<close> after a terminator, a finished generator).
\<close>

fun entering :: "'r rfid \<Rightarrow> operation \<Rightarrow> pc \<times> Reader \<Rightarrow> Reader option" where
  "entering env op (Created, rd) =
     (case payload op of
        Inl e \<Rightarrow> None
      | Inr None \<Rightarrow> Some (rd\<lparr>is_inventory := True\<rparr>)
      | Inr (Some data) \<Rightarrow>
          Some (rd\<lparr>is_inventory := True,
                   transport := send_request env (transport rd) (request_of env op) data True\<rparr>))"
| "entering env op (YieldedNone, rd) = Some rd"
| "entering env op (YieldedResponse b, rd) = (if b then None else Some rd)"
| "entering env op (Finished, rd) = None"

section \<open>A sample instance\<close>

text \<open>
  Sample values for the parameters, used to evaluate the model on concrete inputs: the
  typed response is the frame itself and its status is the byte at index 5.
\<close>

definition sample_env :: "(byte list) rfid" where
  "sample_env =
     \<lparr>HEADER = 0xCF,
      CommandRequest_values = [1, 2, 3, 4, 5, 6, 7, 8, 9],
      INVENTORY_ISO_CONTINUE = 1,
      INVENTORY_STOP = 2,
      SET_POWER = 3,
      SELECT_MASK = 4,
      READ_ISO_TAG = 5,
      WRITE_ISO_TAG = 6,
      LOCK_ISO_TAG = 7,
      KILL_ISO_TAG = 8,
      GET_ALL_PARAM = 9,
      serialize = (\<lambda>c data. [0xCF, 0, word_of_nat (c div 256), word_of_nat (c mod 256),
                               word_of_nat (length data)] @ data @ [0, 0]),
      InventoryStatus_values = [0, 1, 0x12],
      InventoryStatus_SUCCESS = 0,
      InventoryStatus_NO_COUNT_LABEL = 0x12,
      Response = (\<lambda>raw. case raw of None \<Rightarrow> Inl ValueError | Some bs \<Rightarrow> Inr bs),
      ResponseInventory = Inr,
      ResponseReadMemory = Inr,
      ResponseWriteMemory = Inr,
      ResponseLockMemory = Inr,
      ResponseKillTag = Inr,
      status = (\<lambda>r. if 5 < length r then unat (r ! 5) else 0),
      Status_NO_COUNT_LABEL = 0x12\<rparr>"

definition device :: "ConnectionType \<Rightarrow> byte list list \<Rightarrow> byte list \<Rightarrow> Transport" where
  "device ct ps bs =
     \<lparr>connection_type = ct, packets = ps, inbuf = bs, script = [], events = []\<rparr>"

text \<open>A device with nothing sent yet and a script.\<close>

definition scripted :: "ConnectionType \<Rightarrow> byte list list list \<Rightarrow> Transport" where
  "scripted ct fss =
     \<lparr>connection_type = ct, packets = [], inbuf = [], script = fss, events = []\<rparr>"

text \<open>
  Sample frames: an inventory frame with status \<^verbatim>\<open>SUCCESS\<close> and a tag of two bytes
  \<open>b\<close>, an inventory frame with status \<^verbatim>\<open>NO_COUNT_LABEL\<close>, and a frame with a
  given opcode and status.
\<close>

definition tag_frame :: "byte \<Rightarrow> byte list" where
  "tag_frame b = [0xCF, 0, 0, 1, 8, 0, 0, 0, 1, 0, 2, b, b, 0, 0]"

definition no_count_frame :: "byte list" where
  "no_count_frame = [0xCF, 0, 0, 1, 1, 0x12, 0, 0]"

definition status_frame :: "byte \<Rightarrow> byte \<Rightarrow> byte list" where
  "status_frame op st = [0xCF, 0, 0, op, 1, st, 0, 0]"

text \<open>
  The second transport differs from the first by calls of \<^verbatim>\<open>clear_buffer\<close> only:
  nothing was written in between.
\<close>

definition only_cleared :: "Transport \<Rightarrow> Transport \<Rightarrow> bool" where
  "only_cleared t t' \<longleftrightarrow> (\<exists>n. events t' = events t @ replicate n Cleared)"

text \<open>A reader that is idle on a silent device.\<close>

definition idle_reader :: "ConnectionType \<Rightarrow> Reader" where
  "idle_reader ct = \<lparr>transport = device ct [] [], is_inventory = False\<rparr>"


section \<open>Receiving frames\<close>

lemma connection_type_feed [simp]: "connection_type (feed t fs) = connection_type t"
  by (simp add: feed_def)

lemma events_feed [simp]: "events (feed t fs) = events t"
  by (simp add: feed_def)

lemma feed_feed [simp]: "feed (feed t fs) gs = feed t gs"
  by (simp add: feed_def)

lemma receive_complete:
  assumes "complete_frame env f"
  shows "receive env vh lu (feed t (f # rest)) = (Inr (Some f), feed t rest)"
proof (cases "connection_type t = USB")
  case True
  with assms show ?thesis
    by (simp add: receive_def feed_def usb_read_bytes_def complete_frame_def)
next
  case False
  from assms have len: "5 \<le> length f" "length f = 5 + unat (f ! 4) + 2" and h: "f ! 0 = HEADER env"
    by (simp_all add: complete_frame_def)
  have l5: "length (take 5 f) = 5" using len by simp
  have "last (take 5 f) = take 5 f ! (length (take 5 f) - 1)"
    by (rule last_conv_nth) (use len in auto)
  then have l: "last (take 5 f) = f ! 4" unfolding l5 by simp
  have d: "length (drop 5 f) = unat (f ! 4) + 2" using len by simp
  have ne: "f \<noteq> []" "drop 5 f \<noteq> []" using len by auto
  show ?thesis using False len h l d ne
    by (simp add: receive_def feed_def read_bytes_def)
qed

lemma receive_attempts_match:
  assumes "complete_frame env f" "CommandRequest env (opcode f) = Some c"
  shows "receive_attempts env c vh lu (Suc n) raw0 (feed t (f # rest)) = (Inr (Some f), feed t rest)"
  using assms by (simp add: receive_complete opcode_def complete_frame_def)

lemma receive_attempts_mismatch:
  assumes "complete_frame env f" "CommandRequest env (opcode f) \<noteq> Some c"
  shows "receive_attempts env c vh lu (Suc n) raw0 (feed t (f # rest)) = receive_attempts env c vh lu n (Some f) (feed t rest)"
  using assms by (simp add: receive_complete opcode_def complete_frame_def)

lemma receive_attempts_frames:
  assumes "\<forall>w \<in> set ws. complete_frame env w \<and> CommandRequest env (opcode w) \<noteq> Some c"
    and "complete_frame env f" "CommandRequest env (opcode f) = Some c"
    and "length ws < n"
  shows "receive_attempts env c vh lu n raw0 (feed t (ws @ f # rest)) = (Inr (Some f), feed t rest)"
  using assms
proof (induction ws arbitrary: n raw0)
  case Nil
  then obtain m where n: "n = Suc m" by (cases n) auto
  have "receive_attempts env c vh lu (Suc m) raw0 (feed t (f # rest)) = (Inr (Some f), feed t rest)"
    using Nil.prems(2,3) by (rule receive_attempts_match)
  then show ?case unfolding n by (simp only: append_Nil)
next
  case (Cons w ws)
  then obtain m where n: "n = Suc m" by (cases n) auto
  with Cons.prems have m: "length ws < m" by simp
  from Cons.prems(1) have w: "complete_frame env w" "CommandRequest env (opcode w) \<noteq> Some c"
    and ws: "\<forall>w \<in> set ws. complete_frame env w \<and> CommandRequest env (opcode w) \<noteq> Some c"
    by simp_all
  have "receive_attempts env c vh lu (Suc m) raw0 (feed t (w # (ws @ f # rest)))
          = receive_attempts env c vh lu m (Some w) (feed t (ws @ f # rest))"
    using w by (rule receive_attempts_mismatch)
  also have "\<dots> = (Inr (Some f), feed t rest)"
    using ws Cons.prems(2,3) m by (rule Cons.IH)
  finally show ?case unfolding n by (simp only: append_Cons)
qed

lemma receive_attempts_exhausted:
  assumes "\<forall>w \<in> set ws. complete_frame env w \<and> CommandRequest env (opcode w) \<noteq> Some c"
  shows "receive_attempts env c vh lu (length ws) raw0 (feed t (ws @ rest))
           = (Inr (if ws = [] then raw0 else Some (last ws)), feed t rest)"
  using assms
proof (induction ws arbitrary: raw0)
  case Nil
  show ?case by simp
next
  case (Cons w ws)
  from Cons.prems(1) have w: "complete_frame env w" "CommandRequest env (opcode w) \<noteq> Some c"
    and ws: "\<forall>w \<in> set ws. complete_frame env w \<and> CommandRequest env (opcode w) \<noteq> Some c"
    by simp_all
  have "receive_attempts env c vh lu (Suc (length ws)) raw0 (feed t (w # (ws @ rest)))
          = receive_attempts env c vh lu (length ws) (Some w) (feed t (ws @ rest))"
    using w by (rule receive_attempts_mismatch)
  also have "\<dots> = (Inr (if ws = [] then Some w else Some (last ws)), feed t rest)"
    using ws by (rule Cons.IH)
  finally show ?case by (simp only: append_Cons list.size length_Cons) simp
qed

lemma receive_response_match:
  assumes "complete_frame env f" "CommandRequest env (opcode f) = Some c"
  shows "receive_response env c vh lu (feed t (f # rest)) = (Inr (Some f), feed t rest)"
proof -
  have "(20::nat) = Suc 19" by simp
  then show ?thesis unfolding receive_response_def using receive_attempts_match [OF assms] by metis
qed

lemma usb_read_more_events: "usb_read_more n raw t = (res, t') \<Longrightarrow> events t' = events t"
proof (induction n raw t rule: usb_read_more.induct)
  case (1 all_len raw_resp t)
  show ?case
  proof (cases "length raw_resp < all_len")
    case False
    with "1.prems" show ?thesis by simp
  next
    case True
    show ?thesis
    proof (cases "packets t")
      case Nil
      with True "1.prems" show ?thesis by (simp add: usb_read_bytes_def)
    next
      case (Cons p ps)
      have rb: "usb_read_bytes t = (Inr p, t\<lparr>packets := ps\<rparr>)"
        using Cons by (simp add: usb_read_bytes_def)
      have more: "usb_read_more all_len (raw_resp @ p) (t\<lparr>packets := ps\<rparr>) = (res, t')"
        using "1.prems" by (subst (asm) usb_read_more.simps) (simp add: True rb del: usb_read_more.simps)
      have "events t' = events (t\<lparr>packets := ps\<rparr>)"
        using True rb more by (rule "1.IH" [OF _ sym refl])
      then show ?thesis by simp
    qed
  qed
qed

lemma only_cleared_refl: "events t' = events t \<Longrightarrow> only_cleared t t'"
  unfolding only_cleared_def by (rule exI [of _ 0]) simp

lemma only_cleared_trans:
  assumes "only_cleared t t'" "only_cleared t' t''"
  shows "only_cleared t t''"
proof -
  from assms obtain n m where "events t' = events t @ replicate n Cleared"
    "events t'' = events t' @ replicate m Cleared"
    unfolding only_cleared_def by blast
  then have "events t'' = events t @ replicate (n + m) Cleared"
    by (simp add: replicate_add)
  then show ?thesis unfolding only_cleared_def by blast
qed

lemma events_clear_buffer: "events (clear_buffer t) = events t @ [Cleared]"
  by (cases "connection_type t") (simp_all add: clear_buffer_def)

lemma only_cleared_clear:
  assumes "only_cleared t t'"
  shows "only_cleared t (clear_buffer t')"
proof -
  from assms obtain n where "events t' = events t @ replicate n Cleared"
    unfolding only_cleared_def by blast
  then have "events (clear_buffer t') = events t @ replicate (Suc n) Cleared"
    by (simp add: events_clear_buffer replicate_append_same)
  then show ?thesis unfolding only_cleared_def by blast
qed

lemma usb_read_bytes_events: "usb_read_bytes t = (res, t') \<Longrightarrow> events t' = events t"
  by (cases "packets t") (auto simp: usb_read_bytes_def)

lemma read_bytes_events: "read_bytes t n = (res, t') \<Longrightarrow> events t' = events t"
  by (auto simp: read_bytes_def split: if_splits)

lemma receive_events:
  assumes "receive env vh lu t = (res, t')"
  shows "only_cleared t t'"
proof (cases "connection_type t = USB")
  case True
  obtain r1 t1 where rb: "usb_read_bytes t = (r1, t1)" by (cases "usb_read_bytes t")
  then have e1: "events t1 = events t" by (rule usb_read_bytes_events)
  obtain r2 t2 where rm: "usb_read_more (4 + unat (projr r1 ! 4) + 2) (projr r1) t1 = (r2, t2)"
    by (cases "usb_read_more (4 + unat (projr r1 ! 4) + 2) (projr r1) t1")
  then have e2: "events t2 = events t1" by (rule usb_read_more_events)
  from assms have "t' = t1 \<or> t' = t2"
    unfolding receive_def using True rb rm
    by (cases r1; cases r2) (auto simp: Let_def split: if_splits simp del: usb_read_more.simps)
  with e1 e2 show ?thesis by (auto intro: only_cleared_refl)
next
  case False
  obtain r1 t1 where rb: "read_bytes t 5 = (r1, t1)" by (cases "read_bytes t 5")
  then have e1: "events t1 = events t" by (rule read_bytes_events)
  obtain r2 t2 where rm: "read_bytes t1 (unat (last (projr r1)) + 2) = (r2, t2)"
    by (cases "read_bytes t1 (unat (last (projr r1)) + 2)")
  then have e2: "events t2 = events t1" by (rule read_bytes_events)
  from assms have "t' = t1 \<or> t' = t2 \<or> t' = clear_buffer t1"
    unfolding receive_def using False rb rm
    by (cases r1; cases r2) (auto simp: Let_def split: if_splits)
  with e1 e2 show ?thesis
    by (auto intro: only_cleared_refl only_cleared_clear)
qed

lemma receive_attempts_events:
  "receive_attempts env c vh lu n raw0 t = (res, t') \<Longrightarrow> only_cleared t t'"
proof (induction n arbitrary: raw0 t)
  case 0
  then show ?case by (simp add: only_cleared_refl)
next
  case (Suc n)
  obtain r1 t1 where r: "receive env vh lu t = (r1, t1)" by (cases "receive env vh lu t")
  then have oc: "only_cleared t t1" by (rule receive_events)
  show ?case
  proof (cases r1)
    case (Inl e)
    with Suc.prems r oc show ?thesis by simp
  next
    case (Inr ro)
    show ?thesis
    proof (cases ro)
      case None
      with Suc.prems r oc Inr show ?thesis by simp
    next
      case (Some raw)
      define t2 where "t2 = (if length raw > 0 \<and> raw ! 0 \<noteq> HEADER env then clear_buffer t1 else t1)"
      have oc2: "only_cleared t t2" unfolding t2_def using oc by (simp add: only_cleared_clear)
      show ?thesis
      proof (cases "CommandRequest env (from_bytes_big (take 2 (drop 2 raw))) = Some c")
        case True
        with Suc.prems r Inr Some have "t' = t2" by (simp add: t2_def Let_def)
        with oc2 show ?thesis by simp
      next
        case False
        with Suc.prems r Inr Some have "receive_attempts env c vh lu n (Some raw) t2 = (res, t')"
          by (simp add: t2_def Let_def)
        then have "only_cleared t2 t'" by (rule Suc.IH)
        with oc2 show ?thesis by (rule only_cleared_trans)
      qed
    qed
  qed
qed

lemma receive_response_events: "receive_response env c vh lu t = (res, t') \<Longrightarrow> only_cleared t t'"
  unfolding receive_response_def by (rule receive_attempts_events)


lemma events_write_bytes: "events (write_bytes t buffer) = events t @ [Wrote buffer]"
  by (cases "script t") (simp_all add: write_bytes_def deliver_def)

lemma events_send_request:
  "events (send_request env t c data clear) =
     events t @ (if clear then [Cleared] else []) @ [Wrote (serialize env c data)]"
  by (simp add: send_request_def events_write_bytes events_clear_buffer Let_def)

section \<open>One round of a streaming loop\<close>


lemma inventory_round_answers:
  assumes a: "answers env ct (StartInventory wm pa) f r"
    and d: "INVENTORY_STOP env \<noteq> INVENTORY_ISO_CONTINUE env"
  shows "inventory_round env ct (Some (f @ extra))
           = Yielded (Some r) (f ! 5 = InventoryStatus_NO_COUNT_LABEL env)"
proof -
  define L where "L = unat (f ! 4)"
  from a have len: "5 \<le> length f" "length f = 5 + L + 2" and h: "f ! 0 = HEADER env"
    and op: "CommandRequest env (opcode f) = Some (INVENTORY_ISO_CONTINUE env)"
    and ty: "ResponseInventory env f = Inr r"
    and st: "f ! 5 \<in> set (InventoryStatus_values env)"
    and usb: "ct \<noteq> USB \<or> f ! 5 \<noteq> InventoryStatus_SUCCESS env \<or> (6 \<le> L \<and> unat (f ! 10) < L)"
    by (simp_all add: answers_def complete_frame_def L_def)
  have ne: "f @ extra \<noteq> []" "\<not> length (f @ extra) \<le> 4" using len by auto
  have hs: "take 5 (f @ extra) = take 5 f" using len by simp
  have n0: "(f @ extra) ! 0 = HEADER env" "unat ((f @ extra) ! 4) = L"
    using len h by (simp_all add: nth_append L_def)
  have oc: "CommandRequest env (from_bytes_big (take 2 (drop 2 (take 5 f))))
              = Some (INVENTORY_ISO_CONTINUE env)"
    using len op by (simp add: opcode_def drop_take)
  have body: "take (L + 2) (drop 5 (f @ extra)) = drop 5 f" using len by simp
  have bl: "length (drop 5 f) = L + 2" "drop 5 f \<noteq> []" using len by auto
  have b0: "drop 5 f ! 0 = f ! 5" using len by simp
  have ist: "InventoryStatus env (f ! 5) = Some (f ! 5)" using st by (simp add: InventoryStatus_def)
  have whole: "take 5 f @ drop 5 f = f" by simp
  have sect: "length (drop 1 (take L (drop 5 f))) = L - 1" using len by simp
  have tag: "6 \<le> L \<Longrightarrow> drop 1 (take L (drop 5 f)) ! 4 = f ! 10" using len by simp
  have checks: "\<not> (ct = USB \<and> f ! 5 = InventoryStatus_SUCCESS env
                    \<and> length (drop 1 (take L (drop 5 f))) \<le> 4)"
      "\<not> (ct = USB \<and> f ! 5 = InventoryStatus_SUCCESS env
          \<and> length (take (unat (drop 1 (take L (drop 5 f)) ! 4)) (drop 1 (take L (drop 5 f))))
              \<noteq> unat (drop 1 (take L (drop 5 f)) ! 4))"
    using usb sect tag by auto
  show ?thesis
    unfolding inventory_round_def option.case Let_def hs n0 body
    using ne d oc ist ty checks
    by (simp only: b0 bl whole) simp
qed



lemma inventory_loop_frame:
  assumes "answers env (connection_type t) (StartInventory wm pa) f r"
    and "INVENTORY_STOP env \<noteq> INVENTORY_ISO_CONTINUE env"
    and "is_inventory rd" "transport rd = feed t (f # rest)"
  shows "inventory_loop env (Suc k) rd
           = (Yield (Some r), YieldedResponse (f ! 5 = InventoryStatus_NO_COUNT_LABEL env),
              rd\<lparr>transport := feed t rest\<rparr>)"
proof -
  from assms(1) have "complete_frame env f"
    "CommandRequest env (opcode f) = Some (INVENTORY_ISO_CONTINUE env)"
    by (simp_all add: answers_def)
  then have r: "receive_response env (INVENTORY_ISO_CONTINUE env) False False (feed t (f # rest))
                  = (Inr (Some f), feed t rest)"
    by (rule receive_response_match)
  have i: "inventory_round env (connection_type t) (Some f)
             = Yielded (Some r) (f ! 5 = InventoryStatus_NO_COUNT_LABEL env)"
    using inventory_round_answers [OF assms(1,2), of "[]"] by simp
  show ?thesis using assms(3,4) r i by simp
qed

lemma response_loop_frame:
  assumes "complete_frame env f" "CommandRequest env (opcode f) = Some c" "typed f = Inr r"
    and "is_inventory rd" "transport rd = feed t (f # rest)"
  shows "response_loop env typed c yn (Suc k) rd
           = (Yield (Some r), YieldedResponse (status env r = Status_NO_COUNT_LABEL env),
              rd\<lparr>transport := feed t rest\<rparr>)"
proof -
  have r: "receive_response env c True True (feed t (f # rest)) = (Inr (Some f), feed t rest)"
    using assms(1,2) by (rule receive_response_match)
  show ?thesis using assms(3,4,5) r by simp
qed

lemma advance_frame:
  assumes "answers env (connection_type t) op f r"
    and "INVENTORY_STOP env \<noteq> INVENTORY_ISO_CONTINUE env"
    and "is_inventory rd" "transport rd = feed t (f # rest)"
    and "p = YieldedNone \<or> p = YieldedResponse False"
  shows "advance env (Suc k) op (p, rd)
           = (Yield (Some r), YieldedResponse (terminator env op f r), rd\<lparr>transport := feed t rest\<rparr>)"
proof (cases op)
  case (StartInventory wm pa)
  with assms show ?thesis
    using inventory_loop_frame [of env t wm pa f r rd rest k]
    by (auto simp: start_inventory_def resume_def terminator_def)
next
  case (ReadMemory mb sa len pw)
  with assms show ?thesis
    using response_loop_frame [of env f "READ_ISO_TAG env" "ResponseReadMemory env" r rd t rest True k]
    by (auto simp: read_memory_def resume_def terminator_def answers_def)
next
  case (WriteMemory mb da sa len pw)
  with assms show ?thesis
    using response_loop_frame [of env f "WRITE_ISO_TAG env" "ResponseWriteMemory env" r rd t rest False k]
    by (auto simp: write_memory_def resume_def terminator_def answers_def)
next
  case (LockMemory mb la pw)
  with assms show ?thesis
    using response_loop_frame [of env f "LOCK_ISO_TAG env" "ResponseLockMemory env" r rd t rest False k]
    by (auto simp: lock_memory_def resume_def terminator_def answers_def)
next
  case (KillTag pw)
  with assms show ?thesis
    using response_loop_frame [of env f "KILL_ISO_TAG env" "ResponseKillTag env" r rd t rest False k]
    by (auto simp: kill_tag_def resume_def terminator_def answers_def)
qed

lemma advance_terminated:
  "advance env k op (YieldedResponse True, rd) = (StopIteration, Finished, rd\<lparr>is_inventory := False\<rparr>)"
  by (cases op)
    (simp_all add: start_inventory_def read_memory_def write_memory_def lock_memory_def
      kill_tag_def resume_def)


section \<open>Reassembly of a frame from USB packets\<close>

text \<open>
  C1. Over USB a one-shot receive reads one bulk packet, takes LENGTH from index 4 and
  reads further packets until the buffer holds the whole frame, \<open>5 + LENGTH + 2\<close>
  bytes. The code stops one byte earlier, at \<open>4 + LENGTH + 2\<close>: a frame of 65
  bytes (LENGTH 58) that arrives as a packet of 64 bytes and a packet of one byte is
  returned after the first packet, 64 bytes long, and the last byte stays on the
  endpoint.
\<close>

theorem receive_usb_stops_one_byte_short:
  "receive_response sample_env (GET_ALL_PARAM sample_env) True True
     (device USB [[0xCF, 0, 0, 9, 58] @ replicate 59 0, [0x77]] [])
   = (Inr (Some ([0xCF, 0, 0, 9, 58] @ replicate 59 0)), device USB [[0x77]] [])
   \<and> length ([0xCF, 0, 0, 9, 58] @ replicate 59 (0 :: byte)) < 5 + unat (58 :: byte) + 2"
  by code_simp

section \<open>Arguments that are refused\<close>

text \<open>
  C10. The first advance of the generator of \<^verbatim>\<open>start_inventory(ANSWER_MODE, None)\<close>
  raises \<^verbatim>\<open>ValueError\<close>; the transport is untouched, so no command was written, and
  \<^verbatim>\<open>is_inventory\<close> is left set.
\<close>

theorem start_inventory_without_parameter:
  "start_inventory env fuel ANSWER_MODE None (Created, rd)
     = (Raised ValueError, Finished, rd\<lparr>is_inventory := True\<rparr>)"
  by (simp add: start_inventory_def)

text \<open>
  C8. \<^verbatim>\<open>set_power(p)\<close> with \<open>p\<close> outside \<open>[0, 33]\<close> raises (the assertion of the
  code) and leaves the reader and its transport as they were: nothing is written. With
  \<open>p\<close> inside the range the buffer is cleared and the command is written, once; what
  follows on the transport are only the flushes of the receive.
\<close>

theorem set_power_range:
  "(\<not> (0 \<le> p \<and> p \<le> 33) \<longrightarrow> set_power env p reserve rd = (Inl AssertionError, rd))
   \<and> (0 \<le> p \<and> p \<le> 33 \<longrightarrow>
        (\<exists>n. events (transport (snd (set_power env p 0 rd)))
               = events (transport rd)
                 @ [Cleared, Wrote (serialize env (SET_POWER env) [word_of_int p, 0])]
                 @ replicate n Cleared))"
proof (intro conjI impI)
  assume "\<not> (0 \<le> p \<and> p \<le> 33)"
  then show "set_power env p reserve rd = (Inl AssertionError, rd)"
    by (auto simp: set_power_def)
next
  assume p: "0 \<le> p \<and> p \<le> 33"
  define t1 where "t1 = send_request env (transport rd) (SET_POWER env) [word_of_int p, 0] True"
  obtain res t2 where r: "receive_response env (SET_POWER env) True True t1 = (res, t2)"
    by (cases "receive_response env (SET_POWER env) True True t1")
  then have "only_cleared t1 t2" by (rule receive_response_events)
  then obtain n where "events t2 = events t1 @ replicate n Cleared"
    unfolding only_cleared_def by blast
  moreover have "transport (snd (set_power env p 0 rd)) = t2"
    using p r by (cases res) (simp_all add: set_power_def t1_def [symmetric])
  ultimately show "\<exists>n. events (transport (snd (set_power env p 0 rd)))
               = events (transport rd)
                 @ [Cleared, Wrote (serialize env (SET_POWER env) [word_of_int p, 0])]
                 @ replicate n Cleared"
    by (auto simp: t1_def events_send_request)
qed

text \<open>The two cases of C8 at the powers 34 and 30.\<close>

theorem set_power_range_witness:
  "set_power sample_env 34 0 (idle_reader USB) = (Inl AssertionError, idle_reader USB)
   \<and> (\<exists>n. events (transport (snd (set_power sample_env 30 0 (idle_reader USB))))
            = events (transport (idle_reader USB))
              @ [Cleared, Wrote (serialize sample_env (SET_POWER sample_env) [word_of_int 30, 0])]
              @ replicate n Cleared)"
  using set_power_range [of 34 sample_env 0 "idle_reader USB"]
    set_power_range [of 30 sample_env 0 "idle_reader USB"]
  by simp

section \<open>The payload of select\_mask\<close>

lemma select_mask_events:
  assumes "select_mask_data m sa = Inr data"
  shows "\<exists>n. events (transport (snd (select_mask env m sa rd)))
              = events (transport rd) @ [Cleared, Wrote (serialize env (SELECT_MASK env) data)]
                @ replicate n Cleared"
proof -
  define t1 where "t1 = send_request env (transport rd) (SELECT_MASK env) data True"
  obtain res t2 where r: "receive_response env (SELECT_MASK env) True True t1 = (res, t2)"
    by (cases "receive_response env (SELECT_MASK env) True True t1")
  then have "only_cleared t1 t2" by (rule receive_response_events)
  then obtain n where "events t2 = events t1 @ replicate n Cleared"
    unfolding only_cleared_def by blast
  moreover have "transport (snd (select_mask env m sa rd)) = t2"
    using r by (cases res) (simp_all add: select_mask_def assms t1_def [symmetric])
  ultimately show ?thesis
    by (auto simp: t1_def events_send_request)
qed

text \<open>
  C9, for a mask of at most 31 bytes. The payload of \<^verbatim>\<open>select_mask(m)\<close> is the start
  address in bits (two bytes), the length field, and the mask, with one zero byte
  appended when the mask has an odd number of bytes. The length field is the number of
  bits of the mask as it was given, \<open>8 * len(m)\<close>, and this payload is what is
  written.
\<close>

theorem select_mask_payload:
  assumes "length m \<le> 31"
  shows "select_mask_data m 0
           = Inr ([0, 0, word_of_nat (8 * length m)] @ (if odd (length m) then m @ [0] else m))
         \<and> unat (word_of_nat (8 * length m) :: byte) = 8 * length m
         \<and> (\<exists>n. events (transport (snd (select_mask env m 0 rd)))
                  = events (transport rd)
                    @ [Cleared,
                       Wrote (serialize env (SELECT_MASK env)
                                ([0, 0, word_of_nat (8 * length m)]
                                 @ (if odd (length m) then m @ [0] else m)))]
                    @ replicate n Cleared)"
proof -
  have d: "select_mask_data m 0
             = Inr ([0, 0, word_of_nat (8 * length m)] @ (if odd (length m) then m @ [0] else m))"
    using assms by (simp add: select_mask_data_def to_bytes2_def odd_iff_mod_2_eq_one mult.commute)
  have "unat (word_of_nat (8 * length m) :: byte) = (8 * length m) mod 2 ^ LENGTH(8)"
    by (simp only: unat_of_nat)
  also have "\<dots> = 8 * length m" using assms by simp
  finally have u: "unat (word_of_nat (8 * length m) :: byte) = 8 * length m" .
  from d u select_mask_events [OF d] show ?thesis by blast
qed

text \<open>C9 at a mask of three bytes: the length field is 24, one zero byte is appended.\<close>

theorem select_mask_payload_witness:
  "length [0xE2, 0x00, 0x11 :: byte] \<le> 31
   \<and> select_mask_data [0xE2, 0x00, 0x11] 0 = Inr [0, 0, 24, 0xE2, 0x00, 0x11, 0]
   \<and> (\<exists>n. events (transport (snd (select_mask sample_env [0xE2, 0x00, 0x11] 0 (idle_reader SERIAL))))
            = [Cleared, Wrote (serialize sample_env 4 [0, 0, 24, 0xE2, 0x00, 0x11, 0])]
              @ replicate n Cleared)"
  using select_mask_payload [of "[0xE2, 0x00, 0x11]" sample_env "idle_reader SERIAL"]
  by (simp add: idle_reader_def device_def sample_env_def)

text \<open>
  A mask of 32 bytes has 256 bits, which is not a byte: \<^verbatim>\<open>select_mask\<close> raises
  \<^verbatim>\<open>ValueError\<close> and encodes nothing.
\<close>

theorem select_mask_32_bytes_counterexample:
  "select_mask sample_env (replicate 32 0xFF) 0 (idle_reader USB) = (Inl ValueError, idle_reader USB)"
  by (simp add: select_mask_def select_mask_data_def to_bytes2_def)

section \<open>The retry loop of a one-shot receive\<close>

text \<open>
  C2, as the code has it. The loop makes at most 20 attempts. An attempt reads one
  frame and compares its opcode with the expected one. A complete frame with another
  opcode is dropped and the next attempt follows; the transport buffer is not flushed
  for it (the code flushes only when the first byte read is not \<^verbatim>\<open>HEADER\<close>). A frame
  with the expected opcode ends the loop and is returned. So with fewer than 20 frames
  of another opcode before it, the frame with the expected opcode is returned, nothing
  is written or flushed, and what follows it stays unread; after 20 frames of another
  opcode the loop gives up and returns the twentieth.
\<close>

theorem receive_response_retries:
  assumes "\<forall>w \<in> set ws. complete_frame env w \<and> CommandRequest env (opcode w) \<noteq> Some c"
    and "complete_frame env f" and "CommandRequest env (opcode f) = Some c"
  shows "(length ws < 20 \<longrightarrow>
            receive_response env c vh lu (feed t (ws @ f # rest)) = (Inr (Some f), feed t rest))
         \<and> (length ws = 20 \<longrightarrow>
            receive_response env c vh lu (feed t (ws @ f # rest))
              = (Inr (Some (last ws)), feed t (f # rest)))"
proof (intro conjI impI)
  assume "length ws < 20"
  with assms show "receive_response env c vh lu (feed t (ws @ f # rest)) = (Inr (Some f), feed t rest)"
    unfolding receive_response_def by (rule receive_attempts_frames)
next
  assume l: "length ws = 20"
  then have ne: "ws \<noteq> []" by auto
  have "receive_attempts env c vh lu (length ws) None (feed t (ws @ f # rest))
          = (Inr (if ws = [] then None else Some (last ws)), feed t (f # rest))"
    using assms(1) by (rule receive_attempts_exhausted)
  then show "receive_response env c vh lu (feed t (ws @ f # rest))
              = (Inr (Some (last ws)), feed t (f # rest))"
    unfolding receive_response_def using l ne by simp
qed

lemma complete_status_frame: "complete_frame sample_env (status_frame op st)"
  by (simp add: complete_frame_def status_frame_def sample_env_def)

lemma opcode_status_frame: "opcode (status_frame op st) = unat op"
  by (simp add: opcode_def status_frame_def from_bytes_big_def)

lemma sample_request:
  "CommandRequest sample_env n = (if n \<in> set [1, 2, 3, 4, 5, 6, 7, 8, 9] then Some n else None)"
  by (simp add: CommandRequest_def sample_env_def)

text \<open>
  C2 at three frames with opcode 3 before a frame with the expected opcode 9, on a
  serial line, and at twenty such frames, over USB.
\<close>

theorem receive_response_retries_witness:
  "receive_response sample_env 9 True True
     (feed (device SERIAL [] []) ([status_frame 3 0, status_frame 3 0, status_frame 3 0] @ status_frame 9 0 # []))
     = (Inr (Some (status_frame 9 0)), feed (device SERIAL [] []) [])
   \<and> receive_response sample_env 9 True True
     (feed (device USB [] []) (replicate 20 (status_frame 3 0) @ status_frame 9 0 # []))
     = (Inr (Some (status_frame 3 0)), feed (device USB [] []) [status_frame 9 0])"
  using receive_response_retries [of "[status_frame 3 0, status_frame 3 0, status_frame 3 0]"
      sample_env 9 "status_frame 9 0" True True "device SERIAL [] []" "[]"]
    receive_response_retries [of "replicate 20 (status_frame 3 0)"
      sample_env 9 "status_frame 9 0" True True "device USB [] []" "[]"]
  by (simp add: complete_status_frame opcode_status_frame sample_request)

text \<open>
  A mismatch does not flush: a serial buffer holds a frame with opcode 3 and a frame with
  opcode 9; the receive for opcode 9 drops the first and returns the second, and no
  \<^verbatim>\<open>clear_buffer\<close> was called.
\<close>

theorem receive_response_mismatch_counterexample:
  "CommandRequest sample_env (opcode (status_frame 3 0)) \<noteq> Some 9
   \<and> receive_response sample_env 9 True True (device SERIAL [] (status_frame 3 0 @ status_frame 9 0))
       = (Inr (Some (status_frame 9 0)), device SERIAL [] [])
   \<and> Cleared \<notin> set (events (device SERIAL [] []))"
  by code_simp

section \<open>Stopping\<close>







section \<open>Streams that end\<close>

lemma consume_frames:
  assumes "list_all2 (\<lambda>f r. answers env (connection_type t) op f r \<and> \<not> terminator env op f r) fs rs"
    and "answers env (connection_type t) op ft rt" "terminator env op ft rt"
    and "INVENTORY_STOP env \<noteq> INVENTORY_ISO_CONTINUE env"
    and "p = YieldedNone \<or> p = YieldedResponse False"
  shows "consume (advance env (Suc k) op) (length fs + 2 + n)
           (p, \<lparr>transport = feed t (fs @ ft # rest), is_inventory = True\<rparr>)
         = (map Some rs @ [Some rt], StopIteration, Finished,
            \<lparr>transport = feed t rest, is_inventory = False\<rparr>)"
  using assms(1,5)
proof (induction fs rs arbitrary: p rule: list_all2_induct)
  case Nil
  have "advance env (Suc k) op (p, \<lparr>transport = feed t (ft # rest), is_inventory = True\<rparr>)
          = (Yield (Some rt), YieldedResponse (terminator env op ft rt),
             \<lparr>transport = feed t (ft # rest), is_inventory = True\<rparr>\<lparr>transport := feed t rest\<rparr>)"
    using assms(2,4) _ _ Nil.prems by (rule advance_frame) simp_all
  then show ?case using assms(3) by (simp add: advance_terminated)
next
  case (Cons f fs r rs)
  have "advance env (Suc k) op (p, \<lparr>transport = feed t (f # (fs @ ft # rest)), is_inventory = True\<rparr>)
          = (Yield (Some r), YieldedResponse (terminator env op f r),
             \<lparr>transport = feed t (f # (fs @ ft # rest)), is_inventory = True\<rparr>
               \<lparr>transport := feed t (fs @ ft # rest)\<rparr>)"
    using _ assms(4) _ _ Cons.prems by (rule advance_frame) (use Cons.hyps in simp_all)
  moreover have "consume (advance env (Suc k) op) (length fs + 2 + n)
           (YieldedResponse False, \<lparr>transport = feed t (fs @ ft # rest), is_inventory = True\<rparr>)
         = (map Some rs @ [Some rt], StopIteration, Finished,
            \<lparr>transport = feed t rest, is_inventory = False\<rparr>)"
    by (rule Cons.IH) simp
  ultimately show ?case using Cons.hyps by simp
qed

lemma feed_quiet: "packets t = [] \<Longrightarrow> inbuf t = [] \<Longrightarrow> feed t [] = t"
  by (cases t) (simp add: feed_def)

lemma send_request_scripted:
  assumes "packets t = []" "inbuf t = []" "script t = fs # later"
  shows "send_request env t c data True
           = feed (t\<lparr>script := later, events := events t @ [Cleared, Wrote (serialize env c data)]\<rparr>) fs"
  using assms
  by (cases t; cases "connection_type t")
    (simp_all add: send_request_def clear_buffer_def write_bytes_def deliver_def feed_def)

lemma sample_distinct: "INVENTORY_STOP sample_env \<noteq> INVENTORY_ISO_CONTINUE sample_env"
  by (simp add: sample_env_def)

lemma sample_statuses: "InventoryStatus_SUCCESS sample_env \<noteq> InventoryStatus_NO_COUNT_LABEL sample_env"
  by (simp add: sample_env_def)

lemma answers_tag_frame:
  "answers sample_env ct (StartInventory wm pa) (tag_frame b) (tag_frame b)"
  by (simp add: answers_def complete_frame_def opcode_def from_bytes_big_def tag_frame_def
      CommandRequest_def sample_env_def)

lemma answers_no_count_frame:
  "answers sample_env ct (StartInventory wm pa) no_count_frame no_count_frame"
  by (simp add: answers_def complete_frame_def opcode_def from_bytes_big_def no_count_frame_def
      CommandRequest_def sample_env_def)

lemma status_tag_frame: "tag_frame b ! 5 = InventoryStatus_SUCCESS sample_env"
  by (simp add: tag_frame_def sample_env_def)

lemma status_no_count_frame: "no_count_frame ! 5 = InventoryStatus_NO_COUNT_LABEL sample_env"
  by (simp add: no_count_frame_def sample_env_def)

lemma terminator_sample:
  "terminator sample_env (StartInventory wm pa) no_count_frame r"
  "\<not> terminator sample_env (StartInventory wm pa) (tag_frame b) r"
  by (simp_all add: terminator_def tag_frame_def no_count_frame_def sample_env_def)

lemma answers_status_frame_read:
  "answers sample_env ct (ReadMemory mb sa len pw) (status_frame 5 st) (status_frame 5 st)"
  by (simp add: answers_def complete_frame_def opcode_def from_bytes_big_def status_frame_def
      CommandRequest_def sample_env_def)

lemma answers_status_frame_lock:
  "answers sample_env ct (LockMemory mb la pw) (status_frame 7 st) (status_frame 7 st)"
  by (simp add: answers_def complete_frame_def opcode_def from_bytes_big_def status_frame_def
      CommandRequest_def sample_env_def)

lemma answers_status_frame_kill:
  "answers sample_env ct (KillTag pw) (status_frame 8 st) (status_frame 8 st)"
  by (simp add: answers_def complete_frame_def opcode_def from_bytes_big_def status_frame_def
      CommandRequest_def sample_env_def)

lemma terminator_status_frame:
  "\<not> is_start_inventory op \<Longrightarrow> terminator sample_env op f (status_frame c 0x12)"
  by (simp add: terminator_def status_frame_def sample_env_def)

lemma quiet_scripted:
  "packets (scripted ct fss) = []" "inbuf (scripted ct fss) = []" "script (scripted ct fss) = fss"
  "events (scripted ct fss) = []" "connection_type (scripted ct fss) = ct"
  by (simp_all add: scripted_def)

lemma advance_entering_inventory:
  assumes "entering env (StartInventory wm pa) s = Some rd1"
  shows "advance env fuel (StartInventory wm pa) s = inventory_loop env fuel rd1"
proof -
  obtain p rd where s: "s = (p, rd)" by (cases s)
  show ?thesis
    using assms unfolding s
    by (cases p)
      (auto simp: start_inventory_def resume_def Let_def
        split: option.splits sum.splits if_splits simp del: inventory_loop.simps)
qed

lemma advance_entering_response:
  assumes "entering env op s = Some rd1" "\<not> is_start_inventory op"
  shows "advance env fuel op s
           = response_loop env (typed_of env op) (request_of env op)
               (case op of ReadMemory mb sa len pw \<Rightarrow> True | _ \<Rightarrow> False) fuel rd1"
proof -
  obtain p rd where s: "s = (p, rd)" by (cases s)
  show ?thesis
    using assms unfolding s
    by (cases op; cases p)
      (auto simp: read_memory_def write_memory_def lock_memory_def kill_tag_def resume_def Let_def
        split: option.splits sum.splits if_splits simp del: response_loop.simps)
qed

lemma advance_receives:
  assumes "entering env op s = Some rd1" and "is_inventory rd1"
    and "receive_response env (request_of env op) (\<not> is_start_inventory op)
           (\<not> is_start_inventory op) (transport rd1) = (Inr (Some (f @ extra)), t')"
    and "answers env (connection_type t') op f r"
    and "extra = [] \<or> is_start_inventory op"
    and "INVENTORY_STOP env \<noteq> INVENTORY_ISO_CONTINUE env"
  shows "advance env (Suc k) op s
           = (Yield (Some r), YieldedResponse (terminator env op f r), rd1\<lparr>transport := t'\<rparr>)"
proof (cases "is_start_inventory op")
  case True
  then obtain wm pa where op: "op = StartInventory wm pa" by (cases op) auto
  have rnd: "inventory_round env (connection_type t') (Some (f @ extra))
               = Yielded (Some r) (f ! 5 = InventoryStatus_NO_COUNT_LABEL env)"
    using assms(4,6) unfolding op by (rule inventory_round_answers)
  have "inventory_loop env (Suc k) rd1
          = (Yield (Some r), YieldedResponse (f ! 5 = InventoryStatus_NO_COUNT_LABEL env),
             rd1\<lparr>transport := t'\<rparr>)"
    using assms(2,3) rnd unfolding op by simp
  then show ?thesis
    using advance_entering_inventory [of env wm pa s rd1 "Suc k"] assms(1)
    unfolding op by (simp add: terminator_def del: inventory_loop.simps advance.simps)
next
  case False
  with assms(5) have e: "extra = []" by simp
  from assms(4) have ty: "typed_of env op f = Inr r" by (simp add: answers_def)
  have "response_loop env (typed_of env op) (request_of env op)
               (case op of ReadMemory mb sa len pw \<Rightarrow> True | _ \<Rightarrow> False) (Suc k) rd1
          = (Yield (Some r), YieldedResponse (status env r = Status_NO_COUNT_LABEL env),
             rd1\<lparr>transport := t'\<rparr>)"
    using assms(2,3) False ty e by simp
  then show ?thesis
    using advance_entering_response [OF assms(1) False, of "Suc k"] False
    by (simp add: terminator_def del: response_loop.simps advance.simps)
qed


lemma advance_frame_from:
  assumes "entering env op s = Some \<lparr>transport = feed t (f # rest), is_inventory = True\<rparr>"
    and "answers env (connection_type t) op f r"
    and "INVENTORY_STOP env \<noteq> INVENTORY_ISO_CONTINUE env"
  shows "advance env (Suc k) op s
           = (Yield (Some r), YieldedResponse (terminator env op f r),
              \<lparr>transport = feed t rest, is_inventory = True\<rparr>)"
proof -
  from assms(2) have "complete_frame env f" "CommandRequest env (opcode f) = Some (request_of env op)"
    by (simp_all add: answers_def)
  then have "receive_response env (request_of env op) (\<not> is_start_inventory op)
               (\<not> is_start_inventory op) (feed t (f # rest)) = (Inr (Some f), feed t rest)"
    by (rule receive_response_match)
  then have "advance env (Suc k) op s
           = (Yield (Some r), YieldedResponse (terminator env op f r),
              \<lparr>transport = feed t (f # rest), is_inventory = True\<rparr>\<lparr>transport := feed t rest\<rparr>)"
    using assms by (intro advance_receives [where extra = "[]"]) simp_all
  then show ?thesis by simp
qed

text \<open>
  C3. For each of the five streaming operations, a received frame that answers the
  operation with status \<^verbatim>\<open>NO_COUNT_LABEL\<close> is yielded as its typed response, and the
  advance after it ends the sequence and clears \<^verbatim>\<open>is_inventory\<close>. This holds when
  the frame is received by a generator that is suspended in its loop; when it is the
  first frame that the device sends in answer to the command of the first advance; and
  when it is the first frame of a call that sends no command. And the scenario:
  \<^verbatim>\<open>start_inventory(ANSWER_MODE, parameter)\<close> on a device that answers the command with
  two \<^verbatim>\<open>SUCCESS\<close> frames and a \<^verbatim>\<open>NO_COUNT_LABEL\<close> frame yields the three typed
  responses and then ends, with \<^verbatim>\<open>is_inventory\<close> false; the one command was written
  after a flush.
\<close>

theorem terminator_ends_stream:
  assumes "INVENTORY_STOP env \<noteq> INVENTORY_ISO_CONTINUE env"
  shows
    "(answers env (connection_type t) op f r \<and> terminator env op f r
        \<and> (p = YieldedNone \<or> p = YieldedResponse False)
      \<longrightarrow> advance env (Suc k) op (p, \<lparr>transport = feed t (f # rest), is_inventory = True\<rparr>)
            = (Yield (Some r), YieldedResponse True,
               \<lparr>transport = feed t rest, is_inventory = True\<rparr>)
          \<and> advance env k' op (YieldedResponse True, \<lparr>transport = feed t rest, is_inventory = True\<rparr>)
            = (StopIteration, Finished, \<lparr>transport = feed t rest, is_inventory = False\<rparr>))
     \<and> (payload op = Inr (Some data) \<and> packets c = [] \<and> inbuf c = []
        \<and> script c = (f # rest) # later
        \<and> answers env (connection_type c) op f r \<and> terminator env op f r
      \<longrightarrow> advance env (Suc k) op (Created, \<lparr>transport = c, is_inventory = b\<rparr>)
            = (Yield (Some r), YieldedResponse True,
               \<lparr>transport =
                  feed (c\<lparr>script := later,
                          events := events c
                            @ [Cleared, Wrote (serialize env (request_of env op) data)]\<rparr>) rest,
                is_inventory = True\<rparr>)
          \<and> advance env k' op
              (YieldedResponse True,
               \<lparr>transport =
                  feed (c\<lparr>script := later,
                          events := events c
                            @ [Cleared, Wrote (serialize env (request_of env op) data)]\<rparr>) rest,
                is_inventory = True\<rparr>)
            = (StopIteration, Finished,
               \<lparr>transport =
                  feed (c\<lparr>script := later,
                          events := events c
                            @ [Cleared, Wrote (serialize env (request_of env op) data)]\<rparr>) rest,
                is_inventory = False\<rparr>))
     \<and> (payload op = Inr None \<and> answers env (connection_type t) op f r \<and> terminator env op f r
      \<longrightarrow> advance env (Suc k) op (Created, \<lparr>transport = feed t (f # rest), is_inventory = b\<rparr>)
            = (Yield (Some r), YieldedResponse True,
               \<lparr>transport = feed t rest, is_inventory = True\<rparr>)
          \<and> advance env k' op (YieldedResponse True, \<lparr>transport = feed t rest, is_inventory = True\<rparr>)
            = (StopIteration, Finished, \<lparr>transport = feed t rest, is_inventory = False\<rparr>))
     \<and> (answers env (connection_type d) (StartInventory ANSWER_MODE (Some pa)) f1 r1
        \<and> f1 ! 5 = InventoryStatus_SUCCESS env
        \<and> answers env (connection_type d) (StartInventory ANSWER_MODE (Some pa)) f2 r2
        \<and> f2 ! 5 = InventoryStatus_SUCCESS env
        \<and> answers env (connection_type d) (StartInventory ANSWER_MODE (Some pa)) f3 r3
        \<and> f3 ! 5 = InventoryStatus_NO_COUNT_LABEL env
        \<and> InventoryStatus_SUCCESS env \<noteq> InventoryStatus_NO_COUNT_LABEL env
        \<and> to_bytes4 (amount pa) = Inr bs
        \<and> packets d = [] \<and> inbuf d = [] \<and> script d = [f1, f2, f3] # later
      \<longrightarrow> consume (advance env (Suc k) (StartInventory ANSWER_MODE (Some pa))) (4 + n)
              (Created, \<lparr>transport = d, is_inventory = b\<rparr>)
            = ([Some r1, Some r2, Some r3], StopIteration, Finished,
               \<lparr>transport = d\<lparr>script := later,
                               events := events d
                                 @ [Cleared,
                                    Wrote (serialize env (INVENTORY_ISO_CONTINUE env)
                                             (stop_after pa # bs))]\<rparr>,
                is_inventory = False\<rparr>))"
proof -
  have mid: "answers env (connection_type t) op f r \<and> terminator env op f r
        \<and> (p = YieldedNone \<or> p = YieldedResponse False)
      \<longrightarrow> advance env (Suc k) op (p, \<lparr>transport = feed t (f # rest), is_inventory = True\<rparr>)
            = (Yield (Some r), YieldedResponse True,
               \<lparr>transport = feed t rest, is_inventory = True\<rparr>)"
  proof
    assume a: "answers env (connection_type t) op f r \<and> terminator env op f r
        \<and> (p = YieldedNone \<or> p = YieldedResponse False)"
    have "advance env (Suc k) op (p, \<lparr>transport = feed t (f # rest), is_inventory = True\<rparr>)
            = (Yield (Some r), YieldedResponse (terminator env op f r),
               \<lparr>transport = feed t rest, is_inventory = True\<rparr>)"
      by (rule advance_frame_from) (use a assms in auto)
    with a show "advance env (Suc k) op (p, \<lparr>transport = feed t (f # rest), is_inventory = True\<rparr>)
            = (Yield (Some r), YieldedResponse True,
               \<lparr>transport = feed t rest, is_inventory = True\<rparr>)"
      by simp
  qed
  have sent: "payload op = Inr (Some data) \<and> packets c = [] \<and> inbuf c = []
        \<and> script c = (f # rest) # later
        \<and> answers env (connection_type c) op f r \<and> terminator env op f r
      \<longrightarrow> advance env (Suc k) op (Created, \<lparr>transport = c, is_inventory = b\<rparr>)
            = (Yield (Some r), YieldedResponse True,
               \<lparr>transport =
                  feed (c\<lparr>script := later,
                          events := events c
                            @ [Cleared, Wrote (serialize env (request_of env op) data)]\<rparr>) rest,
                is_inventory = True\<rparr>)"
  proof
    assume a: "payload op = Inr (Some data) \<and> packets c = [] \<and> inbuf c = []
        \<and> script c = (f # rest) # later
        \<and> answers env (connection_type c) op f r \<and> terminator env op f r"
    define c' where "c' = c\<lparr>script := later,
        events := events c @ [Cleared, Wrote (serialize env (request_of env op) data)]\<rparr>"
    have s: "send_request env c (request_of env op) data True = feed c' (f # rest)"
      unfolding c'_def by (rule send_request_scripted) (use a in simp_all)
    have "advance env (Suc k) op (Created, \<lparr>transport = c, is_inventory = b\<rparr>)
            = (Yield (Some r), YieldedResponse (terminator env op f r),
               \<lparr>transport = feed c' rest, is_inventory = True\<rparr>)"
      by (rule advance_frame_from) (use a assms s in \<open>simp_all add: c'_def\<close>)
    with a show "advance env (Suc k) op (Created, \<lparr>transport = c, is_inventory = b\<rparr>)
            = (Yield (Some r), YieldedResponse True,
               \<lparr>transport =
                  feed (c\<lparr>script := later,
                          events := events c
                            @ [Cleared, Wrote (serialize env (request_of env op) data)]\<rparr>) rest,
                is_inventory = True\<rparr>)"
      by (simp add: c'_def)
  qed
  have unsent: "payload op = Inr None \<and> answers env (connection_type t) op f r \<and> terminator env op f r
      \<longrightarrow> advance env (Suc k) op (Created, \<lparr>transport = feed t (f # rest), is_inventory = b\<rparr>)
            = (Yield (Some r), YieldedResponse True,
               \<lparr>transport = feed t rest, is_inventory = True\<rparr>)"
  proof
    assume a: "payload op = Inr None \<and> answers env (connection_type t) op f r \<and> terminator env op f r"
    have "advance env (Suc k) op (Created, \<lparr>transport = feed t (f # rest), is_inventory = b\<rparr>)
            = (Yield (Some r), YieldedResponse (terminator env op f r),
               \<lparr>transport = feed t rest, is_inventory = True\<rparr>)"
      by (rule advance_frame_from) (use a assms in simp_all)
    with a show "advance env (Suc k) op (Created, \<lparr>transport = feed t (f # rest), is_inventory = b\<rparr>)
            = (Yield (Some r), YieldedResponse True,
               \<lparr>transport = feed t rest, is_inventory = True\<rparr>)"
      by simp
  qed
  have ends: "\<And>rd. advance env k' op (YieldedResponse True, \<lparr>transport = rd, is_inventory = True\<rparr>)
      = (StopIteration, Finished, \<lparr>transport = rd, is_inventory = False\<rparr>)"
    by (simp add: advance_terminated)
  have scenario: "answers env (connection_type d) (StartInventory ANSWER_MODE (Some pa)) f1 r1
        \<and> f1 ! 5 = InventoryStatus_SUCCESS env
        \<and> answers env (connection_type d) (StartInventory ANSWER_MODE (Some pa)) f2 r2
        \<and> f2 ! 5 = InventoryStatus_SUCCESS env
        \<and> answers env (connection_type d) (StartInventory ANSWER_MODE (Some pa)) f3 r3
        \<and> f3 ! 5 = InventoryStatus_NO_COUNT_LABEL env
        \<and> InventoryStatus_SUCCESS env \<noteq> InventoryStatus_NO_COUNT_LABEL env
        \<and> to_bytes4 (amount pa) = Inr bs
        \<and> packets d = [] \<and> inbuf d = [] \<and> script d = [f1, f2, f3] # later
      \<longrightarrow> consume (advance env (Suc k) (StartInventory ANSWER_MODE (Some pa))) (4 + n)
              (Created, \<lparr>transport = d, is_inventory = b\<rparr>)
            = ([Some r1, Some r2, Some r3], StopIteration, Finished,
               \<lparr>transport = d\<lparr>script := later,
                               events := events d
                                 @ [Cleared,
                                    Wrote (serialize env (INVENTORY_ISO_CONTINUE env)
                                             (stop_after pa # bs))]\<rparr>,
                is_inventory = False\<rparr>)"
  proof
    let ?si = "StartInventory ANSWER_MODE (Some pa)"
    assume a: "answers env (connection_type d) ?si f1 r1
        \<and> f1 ! 5 = InventoryStatus_SUCCESS env
        \<and> answers env (connection_type d) ?si f2 r2
        \<and> f2 ! 5 = InventoryStatus_SUCCESS env
        \<and> answers env (connection_type d) ?si f3 r3
        \<and> f3 ! 5 = InventoryStatus_NO_COUNT_LABEL env
        \<and> InventoryStatus_SUCCESS env \<noteq> InventoryStatus_NO_COUNT_LABEL env
        \<and> to_bytes4 (amount pa) = Inr bs
        \<and> packets d = [] \<and> inbuf d = [] \<and> script d = [f1, f2, f3] # later"
    define d' where "d' = d\<lparr>script := later,
      events := events d @ [Cleared, Wrote (serialize env (INVENTORY_ISO_CONTINUE env) (stop_after pa # bs))]\<rparr>"
    have ct: "connection_type d' = connection_type d" and quiet: "packets d' = []" "inbuf d' = []"
      using a by (simp_all add: d'_def)
    have sent: "send_request env d (INVENTORY_ISO_CONTINUE env) (stop_after pa # bs) True
                = feed d' [f1, f2, f3]"
      unfolding d'_def by (rule send_request_scripted) (use a in simp_all)
    have t1: "\<not> terminator env ?si f1 r1" and t2: "\<not> terminator env ?si f2 r2"
      and t3: "terminator env ?si f3 r3"
      using a by (simp_all add: terminator_def)
    have "advance env (Suc k) ?si (Created, \<lparr>transport = d, is_inventory = b\<rparr>)
          = (Yield (Some r1), YieldedResponse (terminator env ?si f1 r1),
             \<lparr>transport = feed d' [f2, f3], is_inventory = True\<rparr>)"
      by (rule advance_frame_from) (use a assms sent ct in simp_all)
    with t1 have first: "advance env (Suc k) ?si (Created, \<lparr>transport = d, is_inventory = b\<rparr>)
          = (Yield (Some r1), YieldedResponse False,
             \<lparr>transport = feed d' [f2, f3], is_inventory = True\<rparr>)"
      by simp
    have "consume (advance env (Suc k) ?si) (length [f2] + 2 + n)
           (YieldedResponse False, \<lparr>transport = feed d' ([f2] @ f3 # []), is_inventory = True\<rparr>)
         = (map Some [r2] @ [Some r3], StopIteration, Finished,
            \<lparr>transport = feed d' [], is_inventory = False\<rparr>)"
      by (rule consume_frames) (use a assms ct t2 t3 in simp_all)
    then have others: "consume (advance env (Suc k) ?si) (Suc (Suc (Suc n)))
           (YieldedResponse False, \<lparr>transport = feed d' [f2, f3], is_inventory = True\<rparr>)
         = ([Some r2, Some r3], StopIteration, Finished, \<lparr>transport = d', is_inventory = False\<rparr>)"
      using quiet by (simp add: feed_quiet del: consume.simps advance.simps)
    have all: "consume (advance env (Suc k) ?si) (Suc (Suc (Suc (Suc n))))
        (Created, \<lparr>transport = d, is_inventory = b\<rparr>)
      = ([Some r1, Some r2, Some r3], StopIteration, Finished, \<lparr>transport = d', is_inventory = False\<rparr>)"
      by (subst consume.simps) (simp add: first others del: consume.simps advance.simps)
    have four: "4 + n = Suc (Suc (Suc (Suc n)))" by simp
    have "consume (advance env (Suc k) ?si) (4 + n) (Created, \<lparr>transport = d, is_inventory = b\<rparr>)
      = ([Some r1, Some r2, Some r3], StopIteration, Finished, \<lparr>transport = d', is_inventory = False\<rparr>)"
      unfolding four by (rule all)
    then show "consume (advance env (Suc k) ?si) (4 + n) (Created, \<lparr>transport = d, is_inventory = b\<rparr>)
            = ([Some r1, Some r2, Some r3], StopIteration, Finished,
               \<lparr>transport = d\<lparr>script := later,
                               events := events d
                                 @ [Cleared,
                                    Wrote (serialize env (INVENTORY_ISO_CONTINUE env)
                                             (stop_after pa # bs))]\<rparr>,
                is_inventory = False\<rparr>)"
      by (simp add: d'_def)
  qed
  from mid sent unsent ends scenario show ?thesis by blast
qed

text \<open>
  C3 at calls whose first received frame is the terminator (status 0x12 in the sample):
  \<^verbatim>\<open>kill_tag\<close> over USB, \<^verbatim>\<open>lock_memory\<close> on a serial line, an inventory in
  \<^verbatim>\<open>ACTIVE_MODE\<close> over USB; at a \<^verbatim>\<open>read_memory\<close> stream over TCP that has yielded one
  response and then receives the terminator; and at an inventory on a serial line whose
  device answers with two tags and the terminator.
\<close>

theorem terminator_ends_stream_witness:
  "(advance sample_env (Suc 0) (KillTag [0, 0, 0, 0])
      (Created, \<lparr>transport = scripted USB [[status_frame 8 0x12]], is_inventory = False\<rparr>)
    = (Yield (Some (status_frame 8 0x12)), YieldedResponse True,
       \<lparr>transport =
          feed ((scripted USB [[status_frame 8 0x12]])
                 \<lparr>script := [],
                  events := events (scripted USB [[status_frame 8 0x12]])
                    @ [Cleared,
                       Wrote (serialize sample_env (request_of sample_env (KillTag [0, 0, 0, 0]))
                                [0, 0, 0, 0])]\<rparr>) [],
        is_inventory = True\<rparr>)
    \<and> advance sample_env 0 (KillTag [0, 0, 0, 0])
      (YieldedResponse True,
       \<lparr>transport =
          feed ((scripted USB [[status_frame 8 0x12]])
                 \<lparr>script := [],
                  events := events (scripted USB [[status_frame 8 0x12]])
                    @ [Cleared,
                       Wrote (serialize sample_env (request_of sample_env (KillTag [0, 0, 0, 0]))
                                [0, 0, 0, 0])]\<rparr>) [],
        is_inventory = True\<rparr>)
    = (StopIteration, Finished,
       \<lparr>transport =
          feed ((scripted USB [[status_frame 8 0x12]])
                 \<lparr>script := [],
                  events := events (scripted USB [[status_frame 8 0x12]])
                    @ [Cleared,
                       Wrote (serialize sample_env (request_of sample_env (KillTag [0, 0, 0, 0]))
                                [0, 0, 0, 0])]\<rparr>) [],
        is_inventory = False\<rparr>))
   \<and> fst (advance sample_env (Suc 0) (LockMemory 1 2 [0, 0, 0, 0])
           (Created, \<lparr>transport = scripted SERIAL [[status_frame 7 0x12]], is_inventory = False\<rparr>))
     = Yield (Some (status_frame 7 0x12))
   \<and> advance sample_env (Suc 0) (ReadMemory 1 0 1 [0, 0, 0, 0])
       (Created,
        \<lparr>transport = scripted TCP_IP [[status_frame 5 0, status_frame 5 0x12]], is_inventory = False\<rparr>)
     = (Yield (Some (status_frame 5 0)), YieldedResponse False,
        \<lparr>transport =
           feed \<lparr>connection_type = TCP_IP, packets = [], inbuf = [], script = [],
                 events = [Cleared, Wrote (serialize sample_env 5 [0, 0, 0, 0, 0, 1, 0, 0, 1])]\<rparr>
             [status_frame 5 0x12],
         is_inventory = True\<rparr>)
   \<and> advance sample_env (Suc 0) (ReadMemory 1 0 1 [0, 0, 0, 0])
       (YieldedResponse False,
        \<lparr>transport =
           feed \<lparr>connection_type = TCP_IP, packets = [], inbuf = [], script = [],
                 events = [Cleared, Wrote (serialize sample_env 5 [0, 0, 0, 0, 0, 1, 0, 0, 1])]\<rparr>
             [status_frame 5 0x12],
         is_inventory = True\<rparr>)
     = (Yield (Some (status_frame 5 0x12)), YieldedResponse True,
        \<lparr>transport =
           feed \<lparr>connection_type = TCP_IP, packets = [], inbuf = [], script = [],
                 events = [Cleared, Wrote (serialize sample_env 5 [0, 0, 0, 0, 0, 1, 0, 0, 1])]\<rparr>
             [],
         is_inventory = True\<rparr>)
   \<and> fst (advance sample_env (Suc 0) (StartInventory ACTIVE_MODE None)
           (Created, \<lparr>transport = feed (device USB [] []) [no_count_frame], is_inventory = False\<rparr>))
     = Yield (Some no_count_frame)
   \<and> consume (advance sample_env (Suc 0)
                (StartInventory ANSWER_MODE (Some \<lparr>stop_after = 1, amount = 2\<rparr>))) 4
       (Created, \<lparr>transport = scripted SERIAL [[tag_frame 0xAA, tag_frame 0xBB, no_count_frame]],
                  is_inventory = False\<rparr>)
     = ([Some (tag_frame 0xAA), Some (tag_frame 0xBB), Some no_count_frame], StopIteration, Finished,
        \<lparr>transport = (scripted SERIAL [[tag_frame 0xAA, tag_frame 0xBB, no_count_frame]])
           \<lparr>script := [],
            events := [Cleared, Wrote (serialize sample_env (INVENTORY_ISO_CONTINUE sample_env)
                                        [1, 0, 0, 0, 2])]\<rparr>,
         is_inventory = False\<rparr>)"
proof -
  note T = terminator_ends_stream [OF sample_distinct]
  have kill: "advance sample_env (Suc 0) (KillTag [0, 0, 0, 0])
      (Created, \<lparr>transport = scripted USB [[status_frame 8 0x12]], is_inventory = False\<rparr>)
    = (Yield (Some (status_frame 8 0x12)), YieldedResponse True,
       \<lparr>transport =
          feed ((scripted USB [[status_frame 8 0x12]])
                 \<lparr>script := [],
                  events := events (scripted USB [[status_frame 8 0x12]])
                    @ [Cleared,
                       Wrote (serialize sample_env (request_of sample_env (KillTag [0, 0, 0, 0]))
                                [0, 0, 0, 0])]\<rparr>) [],
        is_inventory = True\<rparr>)
    \<and> advance sample_env 0 (KillTag [0, 0, 0, 0])
      (YieldedResponse True,
       \<lparr>transport =
          feed ((scripted USB [[status_frame 8 0x12]])
                 \<lparr>script := [],
                  events := events (scripted USB [[status_frame 8 0x12]])
                    @ [Cleared,
                       Wrote (serialize sample_env (request_of sample_env (KillTag [0, 0, 0, 0]))
                                [0, 0, 0, 0])]\<rparr>) [],
        is_inventory = True\<rparr>)
    = (StopIteration, Finished,
       \<lparr>transport =
          feed ((scripted USB [[status_frame 8 0x12]])
                 \<lparr>script := [],
                  events := events (scripted USB [[status_frame 8 0x12]])
                    @ [Cleared,
                       Wrote (serialize sample_env (request_of sample_env (KillTag [0, 0, 0, 0]))
                                [0, 0, 0, 0])]\<rparr>) [],
        is_inventory = False\<rparr>)"
    by (rule T [where op = "KillTag [0, 0, 0, 0]" and data = "[0, 0, 0, 0]"
          and c = "scripted USB [[status_frame 8 0x12]]" and f = "status_frame 8 0x12"
          and r = "status_frame 8 0x12" and rest = "[]" and later = "[]" and b = False
          and k = 0 and k' = 0, THEN conjunct2, THEN conjunct1, rule_format])
      (simp add: quiet_scripted answers_status_frame_kill terminator_status_frame)
  have lock: "fst (advance sample_env (Suc 0) (LockMemory 1 2 [0, 0, 0, 0])
           (Created, \<lparr>transport = scripted SERIAL [[status_frame 7 0x12]], is_inventory = False\<rparr>))
     = Yield (Some (status_frame 7 0x12))"
    using T [where op = "LockMemory 1 2 [0, 0, 0, 0]" and data = "[0, 0, 0, 0, 1, 2]"
          and c = "scripted SERIAL [[status_frame 7 0x12]]" and f = "status_frame 7 0x12"
          and r = "status_frame 7 0x12" and rest = "[]" and later = "[]" and b = False
          and k = 0 and k' = 0, THEN conjunct2, THEN conjunct1]
    by (simp add: quiet_scripted answers_status_frame_lock terminator_status_frame
        del: advance.simps)
  have reach: "advance sample_env (Suc 0) (ReadMemory 1 0 1 [0, 0, 0, 0])
       (Created,
        \<lparr>transport = scripted TCP_IP [[status_frame 5 0, status_frame 5 0x12]], is_inventory = False\<rparr>)
     = (Yield (Some (status_frame 5 0)), YieldedResponse False,
        \<lparr>transport =
           feed \<lparr>connection_type = TCP_IP, packets = [], inbuf = [], script = [],
                 events = [Cleared, Wrote (serialize sample_env 5 [0, 0, 0, 0, 0, 1, 0, 0, 1])]\<rparr>
             [status_frame 5 0x12],
         is_inventory = True\<rparr>)"
    by code_simp
  have mid: "advance sample_env (Suc 0) (ReadMemory 1 0 1 [0, 0, 0, 0])
       (YieldedResponse False,
        \<lparr>transport =
           feed \<lparr>connection_type = TCP_IP, packets = [], inbuf = [], script = [],
                 events = [Cleared, Wrote (serialize sample_env 5 [0, 0, 0, 0, 0, 1, 0, 0, 1])]\<rparr>
             [status_frame 5 0x12],
         is_inventory = True\<rparr>)
     = (Yield (Some (status_frame 5 0x12)), YieldedResponse True,
        \<lparr>transport =
           feed \<lparr>connection_type = TCP_IP, packets = [], inbuf = [], script = [],
                 events = [Cleared, Wrote (serialize sample_env 5 [0, 0, 0, 0, 0, 1, 0, 0, 1])]\<rparr>
             [],
         is_inventory = True\<rparr>)"
    using T [where op = "ReadMemory 1 0 1 [0, 0, 0, 0]" and p = "YieldedResponse False"
          and t = "\<lparr>connection_type = TCP_IP, packets = [], inbuf = [], script = [],
                 events = [Cleared, Wrote (serialize sample_env 5 [0, 0, 0, 0, 0, 1, 0, 0, 1])]\<rparr>"
          and f = "status_frame 5 0x12" and r = "status_frame 5 0x12" and rest = "[]"
          and k = 0 and k' = 0, THEN conjunct1]
    by (simp add: answers_status_frame_read terminator_status_frame del: advance.simps)
  have active: "fst (advance sample_env (Suc 0) (StartInventory ACTIVE_MODE None)
           (Created, \<lparr>transport = feed (device USB [] []) [no_count_frame], is_inventory = False\<rparr>))
     = Yield (Some no_count_frame)"
    using T [where op = "StartInventory ACTIVE_MODE None" and t = "device USB [] []"
          and f = no_count_frame and r = no_count_frame and rest = "[]" and b = False
          and k = 0 and k' = 0, THEN conjunct2, THEN conjunct2, THEN conjunct1]
    by (simp add: answers_no_count_frame terminator_sample del: advance.simps)
  have q: "packets (scripted SERIAL [[tag_frame 0xAA, tag_frame 0xBB, no_count_frame]]) = []"
    "inbuf (scripted SERIAL [[tag_frame 0xAA, tag_frame 0xBB, no_count_frame]]) = []"
    "script (scripted SERIAL [[tag_frame 0xAA, tag_frame 0xBB, no_count_frame]])
       = [[tag_frame 0xAA, tag_frame 0xBB, no_count_frame]]"
    "events (scripted SERIAL [[tag_frame 0xAA, tag_frame 0xBB, no_count_frame]]) = []"
    by (simp_all add: scripted_def)
  have b4: "to_bytes4 (amount \<lparr>stop_after = 1, amount = 2\<rparr>) = Inr [0, 0, 0, 2]"
    by (simp add: to_bytes4_def)
  have scenario: "consume (advance sample_env (Suc 0)
                (StartInventory ANSWER_MODE (Some \<lparr>stop_after = 1, amount = 2\<rparr>))) 4
       (Created, \<lparr>transport = scripted SERIAL [[tag_frame 0xAA, tag_frame 0xBB, no_count_frame]],
                  is_inventory = False\<rparr>)
     = ([Some (tag_frame 0xAA), Some (tag_frame 0xBB), Some no_count_frame], StopIteration, Finished,
        \<lparr>transport = (scripted SERIAL [[tag_frame 0xAA, tag_frame 0xBB, no_count_frame]])
           \<lparr>script := [],
            events := [Cleared, Wrote (serialize sample_env (INVENTORY_ISO_CONTINUE sample_env)
                                        [1, 0, 0, 0, 2])]\<rparr>,
         is_inventory = False\<rparr>)"
    using T [where d = "scripted SERIAL [[tag_frame 0xAA, tag_frame 0xBB, no_count_frame]]"
        and pa = "\<lparr>stop_after = 1, amount = 2\<rparr>"
        and ?f1.0 = "tag_frame 0xAA" and ?r1.0 = "tag_frame 0xAA"
        and ?f2.0 = "tag_frame 0xBB" and ?r2.0 = "tag_frame 0xBB"
        and ?f3.0 = no_count_frame and ?r3.0 = no_count_frame
        and bs = "[0, 0, 0, 2]" and later = "[]" and n = 0 and b = False and k = 0,
        THEN conjunct2, THEN conjunct2, THEN conjunct2]
      answers_tag_frame answers_no_count_frame status_tag_frame status_no_count_frame
      sample_statuses q b4
    by (simp del: advance.simps consume.simps)
  from kill lock reach mid active scenario show ?thesis by blast
qed




section \<open>Two frames in one USB packet\<close>



section \<open>A receive without a frame\<close>

lemma receive_attempts_first:
  assumes "receive env vh lu t = (r, t')" "r = Inr None \<or> (\<exists>e. r = Inl e)"
  shows "receive_attempts env c vh lu (Suc m) raw0 t = (r, t')"
  using assms by auto

lemma receive_response_first:
  assumes "receive env vh lu t = (r, t')" "r = Inr None \<or> (\<exists>e. r = Inl e)"
  shows "receive_response env c vh lu t = (r, t')"
proof -
  have "(20::nat) = Suc 19" by simp
  then show ?thesis
    unfolding receive_response_def using receive_attempts_first [OF assms] by metis
qed

lemma receive_response_silent_serial:
  assumes "connection_type t = SERIAL" "inbuf t = []"
  shows "\<exists>t'. receive_response env c vh lu t = (Inr None, t')
              \<and> connection_type t' = SERIAL \<and> inbuf t' = []"
proof -
  have "receive env vh lu t = (Inr None, clear_buffer (t\<lparr>inbuf := []\<rparr>))"
    using assms by (simp add: receive_def read_bytes_def)
  then have "receive_response env c vh lu t = (Inr None, clear_buffer (t\<lparr>inbuf := []\<rparr>))"
    by (rule receive_response_first) simp
  moreover have "connection_type (clear_buffer (t\<lparr>inbuf := []\<rparr>)) = SERIAL"
    "inbuf (clear_buffer (t\<lparr>inbuf := []\<rparr>)) = []"
    using assms by (simp_all add: clear_buffer_def)
  ultimately show ?thesis by blast
qed

lemma response_loop_silent_serial:
  assumes "connection_type (transport rd) = SERIAL" "inbuf (transport rd) = []" "is_inventory rd"
  shows "fst (response_loop env typed c False fuel rd) = OutOfFuel"
  using assms
proof (induction fuel arbitrary: rd)
  case 0
  show ?case by simp
next
  case (Suc fuel)
  from receive_response_silent_serial [OF Suc.prems(1,2)]
  obtain t' where r: "receive_response env c True True (transport rd) = (Inr None, t')"
    and t': "connection_type t' = SERIAL" "inbuf t' = []"
    by blast
  have "fst (response_loop env typed c False fuel (rd\<lparr>transport := t'\<rparr>)) = OutOfFuel"
    by (rule Suc.IH) (use t' Suc.prems in simp_all)
  then show ?case using Suc.prems(3) r by simp
qed

text \<open>
  C4 says that every streaming operation yields \<^verbatim>\<open>None\<close> and goes on when the
  transport times out or the receive has no frame. On a silent serial line
  \<^verbatim>\<open>read_memory\<close> does so, but the loop of \<^verbatim>\<open>write_memory\<close> goes round without
  ever yielding, however much fuel it gets; and over a silent USB device the timeout of
  the endpoint leaves \<^verbatim>\<open>read_memory\<close> as \<^verbatim>\<open>USBError\<close>, which ends the sequence.
\<close>

theorem write_memory_skips_none:
  "fst (write_memory sample_env fuel 1 [0xAB, 0xCD] 0 0 [0, 0, 0, 0] (Created, idle_reader SERIAL))
     = OutOfFuel
   \<and> fst (read_memory sample_env (Suc fuel) 1 0 1 [0, 0, 0, 0] (Created, idle_reader SERIAL))
     = Yield None
   \<and> fst (read_memory sample_env (Suc fuel) 1 0 1 [0, 0, 0, 0] (Created, idle_reader USB))
     = Raised USBError"
proof (intro conjI)
  define rd where "rd = (idle_reader SERIAL)\<lparr>is_inventory := True,
      transport := send_request sample_env (transport (idle_reader SERIAL)) (WRITE_ISO_TAG sample_env)
        ([0] @ [0, 0, 0, 0] @ [1] @ [0, 0] @ [word_of_int 2] @ [0xAB, 0xCD]) True\<rparr>"
  have st: "connection_type (transport rd) = SERIAL" "inbuf (transport rd) = []" "is_inventory rd"
    by (simp_all add: rd_def idle_reader_def device_def send_request_def clear_buffer_def
        write_bytes_def)
  have "fst (response_loop sample_env (ResponseWriteMemory sample_env) (WRITE_ISO_TAG sample_env)
               False fuel rd) = OutOfFuel"
    using st by (rule response_loop_silent_serial)
  moreover have "write_memory sample_env fuel 1 [0xAB, 0xCD] 0 0 [0, 0, 0, 0] (Created, idle_reader SERIAL)
      = response_loop sample_env (ResponseWriteMemory sample_env) (WRITE_ISO_TAG sample_env)
               False fuel rd"
    by (simp add: write_memory_def to_bytes2_def rd_def)
  ultimately show "fst (write_memory sample_env fuel 1 [0xAB, 0xCD] 0 0 [0, 0, 0, 0]
                          (Created, idle_reader SERIAL)) = OutOfFuel"
    by simp
next
  define t where "t = send_request sample_env (transport (idle_reader SERIAL)) (READ_ISO_TAG sample_env)
        ([0] @ [0, 0, 0, 0] @ [1] @ [0, 0] @ [word_of_int 1]) True"
  have "connection_type t = SERIAL" "inbuf t = []"
    by (simp_all add: t_def idle_reader_def device_def send_request_def clear_buffer_def
        write_bytes_def)
  from receive_response_silent_serial [OF this]
  obtain t' where "receive_response sample_env (READ_ISO_TAG sample_env) True True t = (Inr None, t')"
    by blast
  then show "fst (read_memory sample_env (Suc fuel) 1 0 1 [0, 0, 0, 0] (Created, idle_reader SERIAL))
     = Yield None"
    by (simp add: read_memory_def to_bytes2_def t_def)
next
  define t where "t = send_request sample_env (transport (idle_reader USB)) (READ_ISO_TAG sample_env)
        ([0] @ [0, 0, 0, 0] @ [1] @ [0, 0] @ [word_of_int 1]) True"
  have u: "connection_type t = USB" "packets t = []"
    by (simp_all add: t_def idle_reader_def device_def send_request_def clear_buffer_def
        write_bytes_def)
  have "receive sample_env True True t = (Inl USBError, t)"
    using u by (simp add: receive_def usb_read_bytes_def)
  then have "receive_response sample_env (READ_ISO_TAG sample_env) True True t = (Inl USBError, t)"
    by (rule receive_response_first) simp
  then show "fst (read_memory sample_env (Suc fuel) 1 0 1 [0, 0, 0, 0] (Created, idle_reader USB))
     = Raised USBError"
    by (simp add: read_memory_def to_bytes2_def t_def)
qed

end
